theory Spec2Isabelle
  imports Main "HOL-Library.Sublist"
begin

section \<open>Paths\<close>

text \<open>
  Vault paths are JavaScript strings: relative to the vault root, separated by
  \<open>/\<close>. The helpers below are the library calls the handlers make on them.
\<close>

fun splitOn :: "char \<Rightarrow> string \<Rightarrow> string list" where
  "splitOn c [] = [[]]"
| "splitOn c (x # xs) =
     (if x = c then [] # splitOn c xs
      else (case splitOn c xs of [] \<Rightarrow> [[x]] | s # ss \<Rightarrow> (x # s) # ss))"

definition segments :: "string \<Rightarrow> string list" where
  "segments p = filter (\<lambda>s. s \<noteq> []) (splitOn CHR ''/'' p)"

fun joinSegs :: "string list \<Rightarrow> string" where
  "joinSegs [] = []"
| "joinSegs [s] = s"
| "joinSegs (s # t # ss) = s @ ''/'' @ joinSegs (t # ss)"

text \<open>\<open>String.prototype.startsWith\<close>.\<close>

definition startsWith :: "string \<Rightarrow> string \<Rightarrow> bool" where
  "startsWith s pre = (take (length pre) s = pre)"

text \<open>
  \<open>dirname\<close> of the path library on a vault path: everything before the last
  segment, \<open>.\<close> when the path has a single segment. A vault path is relative
  to the vault root and does not start with a slash; of a path that does, the
  library keeps the leading slash and this definition does not.
\<close>

definition dirname :: "string \<Rightarrow> string" where
  "dirname p = (case butlast (segments p) of [] \<Rightarrow> ''.'' | ss \<Rightarrow> joinSegs ss)"

text \<open>
  \<open>TAbstractFile.parent.path\<close>: the host names the root folder \<open>/\<close>, every
  other folder by its vault path.
\<close>

definition parentPath :: "string \<Rightarrow> string" where
  "parentPath p = (case butlast (segments p) of [] \<Rightarrow> ''/'' | ss \<Rightarrow> joinSegs ss)"

text \<open>\<open>TFile.name\<close>, \<open>TFile.extension\<close> and \<open>TFile.basename\<close>, all read off the path.\<close>

definition fileName :: "string \<Rightarrow> string" where
  "fileName p = (case segments p of [] \<Rightarrow> [] | ss \<Rightarrow> last ss)"

definition extension :: "string \<Rightarrow> string" where
  "extension p =
     (let n = fileName p
      in if CHR ''.'' \<in> set n then rev (takeWhile (\<lambda>c. c \<noteq> CHR ''.'') (rev n)) else [])"

definition basename :: "string \<Rightarrow> string" where
  "basename p =
     (let n = fileName p
      in if CHR ''.'' \<in> set n then rev (tl (dropWhile (\<lambda>c. c \<noteq> CHR ''.'') (rev n))) else n)"

definition toLowerChar :: "char \<Rightarrow> char" where
  "toLowerChar c =
     (case map_of (zip ''ABCDEFGHIJKLMNOPQRSTUVWXYZ'' ''abcdefghijklmnopqrstuvwxyz'') c of
        None \<Rightarrow> c | Some d \<Rightarrow> d)"

definition toLowerCase :: "string \<Rightarrow> string" where
  "toLowerCase s = map toLowerChar s"

text \<open>
  Modelled from the spec: \<open>isNote\<close> is imported, not defined, by both handlers.
  Section 4.1 classifies a file by its extension alone: \<open>md\<close> and \<open>canvas\<close>
  are notes, everything else is an attachment.
\<close>

definition isNote :: "string \<Rightarrow> bool" where
  "isNote p = (toLowerCase (extension p) = ''md'' \<or> toLowerCase (extension p) = ''canvas'')"

section \<open>The vault\<close>

text \<open>
  The host's file tree (section 6 of the spec): files with their content, in
  listing order, and folders. A \<open>TFile\<close> is known by its path.
\<close>

record vault =
  files :: "(string \<times> string) list"
  folders :: "string list"

definition getFileOrNull :: "vault \<Rightarrow> string \<Rightarrow> string option" where
  "getFileOrNull v p = (if p \<in> set (map fst (files v)) then Some p else None)"

definition readFile :: "vault \<Rightarrow> string \<Rightarrow> string option" where
  "readFile v p = map_of (files v) p"

definition isRoot :: "string \<Rightarrow> bool" where
  "isRoot d = (segments d = [] \<or> d = ''.'')"

definition folderExists :: "vault \<Rightarrow> string \<Rightarrow> bool" where
  "folderExists v d = (isRoot d \<or> d \<in> set (folders v))"

definition pathExists :: "vault \<Rightarrow> string \<Rightarrow> bool" where
  "pathExists v p = (p \<in> set (map fst (files v)) \<or> folderExists v p)"

text \<open>\<open>TFolder.children\<close>: the files and folders directly inside a folder.\<close>

definition childFiles :: "vault \<Rightarrow> string \<Rightarrow> string list" where
  "childFiles v d = filter (\<lambda>p. parentPath p = parentPath (d @ ''/x'')) (map fst (files v))"

definition childFolders :: "vault \<Rightarrow> string \<Rightarrow> string list" where
  "childFolders v d = filter (\<lambda>p. parentPath p = parentPath (d @ ''/x'')) (folders v)"

text \<open>The folder and its ancestors below the root, outermost first.\<close>

definition folderChain :: "string \<Rightarrow> string list" where
  "folderChain d = (if isRoot d then [] else map joinSegs (tl (prefixes (segments d))))"

text \<open>
  Modelled from the spec: the file-tree primitives of the host, which neither
  handler defines. Section 6 lists them: \<open>createFolder\<close> (here with the
  missing ancestors, and doing nothing when the path exists), \<open>move\<close>,
  \<open>copy\<close>, \<open>delete\<close>.
\<close>

definition createFolderSafe :: "vault \<Rightarrow> string \<Rightarrow> vault" where
  "createFolderSafe v d =
     (if pathExists v d then v
      else v\<lparr>folders := folders v @ filter (\<lambda>x. x \<notin> set (folders v)) (folderChain d)\<rparr>)"

definition vaultRename :: "vault \<Rightarrow> string \<Rightarrow> string \<Rightarrow> vault" where
  "vaultRename v old new =
     v\<lparr>files := map (\<lambda>(p, c). if p = old then (new, c) else (p, c)) (files v)\<rparr>"

definition vaultCopy :: "vault \<Rightarrow> string \<Rightarrow> string \<Rightarrow> vault" where
  "vaultCopy v old new =
     (case readFile v old of None \<Rightarrow> v | Some c \<Rightarrow> v\<lparr>files := files v @ [(new, c)]\<rparr>)"

definition trashFile :: "vault \<Rightarrow> string \<Rightarrow> vault" where
  "trashFile v p = v\<lparr>files := filter (\<lambda>(q, c). q \<noteq> p) (files v)\<rparr>"

definition trashFolder :: "vault \<Rightarrow> string \<Rightarrow> vault" where
  "trashFolder v d = v\<lparr>folders := filter (\<lambda>q. q \<noteq> d) (folders v)\<rparr>"

text \<open>
  \<open>normalize\<close> and \<open>join\<close> of the path library: \<open>.\<close> segments vanish,
  \<open>..\<close> removes the segment before it, a trailing slash stays.
\<close>

fun normSegs :: "bool \<Rightarrow> string list \<Rightarrow> string list \<Rightarrow> string list" where
  "normSegs up acc [] = rev acc"
| "normSegs up acc (s # ss) =
     (if s = ''.'' then normSegs up acc ss
      else if s = ''..'' then
        (case acc of
           [] \<Rightarrow> normSegs up (if up then [s] else []) ss
         | a # as \<Rightarrow> if a = ''..'' then normSegs up (s # acc) ss else normSegs up as ss)
      else normSegs up (s # acc) ss)"

definition normalizePath :: "string \<Rightarrow> string" where
  "normalizePath p =
     (if p = [] then ''.''
      else
        let isAbs = (hd p = CHR ''/'');
            trailing = (last p = CHR ''/'');
            s0 = joinSegs (normSegs (\<not> isAbs) [] (segments p));
            s1 = (if s0 = [] \<and> \<not> isAbs then ''.'' else s0);
            s2 = (if s1 \<noteq> [] \<and> trailing then s1 @ ''/'' else s1)
        in if isAbs then ''/'' @ s2 else s2)"

definition join :: "string list \<Rightarrow> string" where
  "join parts =
     (let joined = joinSegs (filter (\<lambda>s. s \<noteq> []) parts)
      in if joined = [] then ''.'' else normalizePath joined)"

section \<open>files-handler.ts\<close>

text \<open>
  An exception of the host. \<open>adapter.rmdir\<close> either removes the folder,
  or throws and leaves it, or throws although the folder is gone (somebody
  else removed it first).
\<close>

datatype error = HostError string

datatype rmdirOutcome = Removed | Refused error | LostRace error

text \<open>
  \<open>PathChangeInfo\<close> and \<open>MovedAttachmentResult\<close>, the constructor's settings,
  and the parts of the host the handler calls without defining them.
\<close>

record pathChangeInfo =
  newPath :: string
  oldPath :: string

record movedAttachmentResult =
  movedAttachments :: "pathChangeInfo list"
  renamedFiles :: "pathChangeInfo list"

record config =
  ignoreFolders :: "string list"
  ignoreFilesRegex :: "(string \<Rightarrow> bool) list"
  shouldDeleteEmptyFolders :: bool

record reference =
  link :: string
  original :: string
  startOffset :: nat
  endOffset :: nat

record cachedMetadata =
  frontmatterID :: "string option"
  allLinks :: "reference list"

text \<open>
  The collaborators of the handler that section 1 of the spec puts out of
  scope: the link index (\<open>getCachedNotesThatHaveLinkToFile\<close>,
  \<open>getFullPathForLink\<close>, \<open>extractLinkFile\<close>, \<open>getCacheSafe\<close>), the
  attachment-folder policy (\<open>getAttachmentFilePath\<close>, the configured
  \<open>attachmentFolderPath\<close>), the content hash (\<open>md5\<close> of the bytes read), the
  numbering of a sibling name when a path is taken (\<open>uniqueSibling\<close>), and
  whether the adapter manages to remove a folder (\<open>rmdirOutcome\<close>).
  They are parameters of the model.
\<close>

record host =
  uniqueSibling :: "vault \<Rightarrow> string \<Rightarrow> string"
  getCachedNotesThatHaveLinkToFile :: "vault \<Rightarrow> string \<Rightarrow> string list"
  getFullPathForLink :: "string \<Rightarrow> string \<Rightarrow> string"
  extractLinkFile :: "vault \<Rightarrow> reference \<Rightarrow> string \<Rightarrow> string option"
  getCacheSafe :: "vault \<Rightarrow> string \<Rightarrow> cachedMetadata option"
  getAttachmentFilePath :: "vault \<Rightarrow> string \<Rightarrow> string \<Rightarrow> string"
  attachmentFolderPath :: string
  md5 :: "string \<Rightarrow> string"
  rmdirOutcome :: "vault \<Rightarrow> string \<Rightarrow> rmdirOutcome"

text \<open>
  Modelled from the spec: the imported helpers \<open>getAvailablePath\<close>,
  \<open>renameSafe\<close> and \<open>copySafe\<close>. Section 4.4 has a taken target replaced
  by "an auto-generated unique sibling"; so \<open>getAvailablePath\<close> is the path
  itself when nothing is there and a sibling name otherwise, and
  \<open>renameSafe\<close> and \<open>copySafe\<close> move and copy to the available path,
  creating its folder, and return the path used.
\<close>

definition getAvailablePath :: "host \<Rightarrow> vault \<Rightarrow> string \<Rightarrow> string" where
  "getAvailablePath h v p = (if pathExists v p then uniqueSibling h v p else p)"

definition renameSafe :: "host \<Rightarrow> vault \<Rightarrow> string \<Rightarrow> string \<Rightarrow> string \<times> vault" where
  "renameSafe h v old new =
     (let a = getAvailablePath h v new
      in if old = a then (a, v) else (a, vaultRename (createFolderSafe v (parentPath a)) old a))"

definition copySafe :: "host \<Rightarrow> vault \<Rightarrow> string \<Rightarrow> string \<Rightarrow> string \<times> vault" where
  "copySafe h v old new =
     (let v1 = createFolderSafe v (parentPath new);
          a = getAvailablePath h v1 new
      in (a, vaultCopy v1 old a))"

text \<open>
  Modelled from the spec: the imported helper \<open>deleteEmptyFolderHierarchy\<close>,
  which the rename handler imports as \<open>removeEmptyFolderHierarchy\<close>.
  Section 4.5: remove the folder if it has no children, then repeat on its
  parent, stopping at the root or at the first folder that is not empty.
\<close>

fun pruneChain :: "vault \<Rightarrow> string list \<Rightarrow> vault" where
  "pruneChain v [] = v"
| "pruneChain v (d # ds) =
     (if d \<in> set (folders v) \<and> childFiles v d = [] \<and> childFolders v d = []
      then pruneChain (trashFolder v d) ds else v)"

definition deleteEmptyFolderHierarchy :: "vault \<Rightarrow> string \<Rightarrow> vault" where
  "deleteEmptyFolderHierarchy v d = pruneChain v (rev (folderChain d))"

abbreviation removeEmptyFolderHierarchy :: "vault \<Rightarrow> string \<Rightarrow> vault" where
  "removeEmptyFolderHierarchy \<equiv> deleteEmptyFolderHierarchy"

definition createFolderForAttachmentFromPath :: "vault \<Rightarrow> string \<Rightarrow> vault" where
  "createFolderForAttachmentFromPath v filePath = createFolderSafe v (dirname filePath)"

text \<open>
  \<open>deleteFile\<close>: trash the file; when asked to, walk \<open>file.parent\<close> upwards,
  trashing each folder with no children, until one has children or the parent
  is null (above the root).
\<close>

fun trashEmptyDirs :: "vault \<Rightarrow> string list \<Rightarrow> vault" where
  "trashEmptyDirs v [] = v"
| "trashEmptyDirs v (d # ds) =
     (if childFiles v d = [] \<and> childFolders v d = []
      then trashEmptyDirs (trashFolder v d) ds else v)"

definition deleteFile :: "vault \<Rightarrow> string \<Rightarrow> bool \<Rightarrow> vault" where
  "deleteFile v file deleteEmptyFolders =
     (let v1 = trashFile v file
      in if deleteEmptyFolders
         then trashEmptyDirs v1 (rev (folderChain (parentPath file)) @ [''/''])
         else v1)"

definition isAttachment :: "string \<Rightarrow> bool" where
  "isAttachment file = (\<not> isNote file)"

definition stripDotSlash :: "string \<Rightarrow> string" where
  "stripDotSlash p = (if startsWith p ''./'' then drop 2 p else p)"

definition isPathIgnored :: "config \<Rightarrow> string \<Rightarrow> bool" where
  "isPathIgnored c p =
     (let q = stripDotSlash p
      in list_ex (\<lambda>folder. startsWith q folder) (ignoreFolders c)
         \<or> list_ex (\<lambda>fileRegex. fileRegex q) (ignoreFilesRegex c))"

text \<open>
  \<open>getCustomizedNewPath\<close>: the attachment folder configured in the host,
  resolved against the note's folder when it is relative, then the note's
  identifier, then the hash of the attachment's bytes with its extension.
\<close>

definition normalizeSlashes :: "string \<Rightarrow> string" where
  "normalizeSlashes p =
     (let q = joinSegs (segments (map (\<lambda>c. if c = CHR 0x5C then CHR ''/'' else c) p))
      in if q = [] then ''/'' else q)"

definition getParentPrefix :: "string \<Rightarrow> string" where
  "getParentPrefix file = (if isRoot (parentPath file) then [] else parentPath file @ ''/'')"

definition generateValidBaseName :: "host \<Rightarrow> vault \<Rightarrow> string \<Rightarrow> string" where
  "generateValidBaseName h v attachment =
     md5 h (case readFile v attachment of None \<Rightarrow> [] | Some data \<Rightarrow> data)"

definition getCustomizedNewPath :: "host \<Rightarrow> vault \<Rightarrow> string \<Rightarrow> string \<Rightarrow> string \<Rightarrow> string" where
  "getCustomizedNewPath h v notePath attachmentFile ident =
     (let filename = generateValidBaseName h v attachmentFile @ ''.'' @ extension attachmentFile;
          configured = attachmentFolderPath h;
          isCurrentFolder = (configured = ''.'' \<or> configured = ''./'');
          relativePath = (if startsWith configured ''./'' then drop 2 configured else []);
          folder = (if isCurrentFolder then parentPath notePath
                    else if relativePath \<noteq> [] then getParentPrefix notePath @ relativePath
                    else configured)
      in join [normalizePath (normalizeSlashes folder), ident, filename])"

text \<open>
  \<open>moveAttachment\<close>. The three early returns, then the six branches on
  whether another note links to the file, whether the target exists and
  \<open>deleteExistFiles\<close>. The branch \<open>path !== file.path\<close> compares two reads
  of the same file handle with no move of this handler between them; it is
  taken only when another writer moves the file meanwhile, which the model
  (one writer, section 1 of the spec) does not have.
\<close>

definition emptyResult :: movedAttachmentResult where
  "emptyResult = \<lparr>movedAttachments = [], renamedFiles = []\<rparr>"

definition otherLinkedNotes :: "host \<Rightarrow> vault \<Rightarrow> string \<Rightarrow> string list \<Rightarrow> string list" where
  "otherLinkedNotes h v p parentNotePaths =
     filter (\<lambda>n. n \<notin> set parentNotePaths) (getCachedNotesThatHaveLinkToFile h v p)"

definition moveAttachment ::
  "config \<Rightarrow> host \<Rightarrow> vault \<Rightarrow> string \<Rightarrow> string \<Rightarrow> string list \<Rightarrow> bool \<Rightarrow> bool
     \<Rightarrow> movedAttachmentResult \<times> vault" where
  "moveAttachment c h v file newLinkPath parentNotePaths deleteExistFiles deleteEmptyFolders =
     (if isPathIgnored c file then (emptyResult, v)
      else if \<not> isAttachment file then (emptyResult, v)
      else if file = newLinkPath then (emptyResult, v)
      else
        let v1 = createFolderForAttachmentFromPath v newLinkPath;
            linkedNotes = otherLinkedNotes h v1 file parentNotePaths;
            oldFolder = parentPath file;
            (res, v2) =
              (if linkedNotes = [] then
                 (case getFileOrNull v1 newLinkPath of
                    None \<Rightarrow>
                      (\<lparr>movedAttachments = [\<lparr>newPath = newLinkPath, oldPath = file\<rparr>],
                        renamedFiles = []\<rparr>,
                       snd (renameSafe h v1 file newLinkPath))
                  | Some existFile \<Rightarrow>
                      if deleteExistFiles then
                        (\<lparr>movedAttachments = [\<lparr>newPath = newLinkPath, oldPath = file\<rparr>],
                          renamedFiles = []\<rparr>,
                         deleteFile v1 file deleteEmptyFolders)
                      else
                        let newFileCopyName = getAvailablePath h v1 newLinkPath
                        in (\<lparr>movedAttachments = [\<lparr>newPath = newFileCopyName, oldPath = file\<rparr>],
                             renamedFiles = [\<lparr>newPath = newFileCopyName, oldPath = newLinkPath\<rparr>]\<rparr>,
                            snd (renameSafe h v1 file newFileCopyName)))
               else
                 (case getFileOrNull v1 newLinkPath of
                    None \<Rightarrow>
                      (\<lparr>movedAttachments = [\<lparr>newPath = newLinkPath, oldPath = file\<rparr>],
                        renamedFiles = []\<rparr>,
                       snd (copySafe h v1 file newLinkPath))
                  | Some existFile \<Rightarrow>
                      if \<not> deleteExistFiles then
                        let newFileCopyName = getAvailablePath h v1 newLinkPath;
                            (moved, v') = renameSafe h v1 file newFileCopyName
                        in (\<lparr>movedAttachments = [\<lparr>newPath = newFileCopyName, oldPath = file\<rparr>],
                             renamedFiles = [\<lparr>newPath = newFileCopyName, oldPath = newLinkPath\<rparr>]\<rparr>,
                            snd (copySafe h v' moved file))
                      else
                        (\<lparr>movedAttachments = [\<lparr>newPath = newLinkPath, oldPath = file\<rparr>],
                          renamedFiles = []\<rparr>,
                         v1)))
        in (res, if shouldDeleteEmptyFolders c then deleteEmptyFolderHierarchy v2 oldFolder else v2))"

text \<open>
  \<open>collectAttachmentsForCachedNote\<close>. \<open>splitSubpath\<close> cuts the link at the
  first \<open>#\<close>; a frontmatter \<open>ID\<close> that is absent or the empty string is falsy.
\<close>

definition splitSubpath :: "string \<Rightarrow> string" where
  "splitSubpath l = takeWhile (\<lambda>c. c \<noteq> CHR ''#'') l"

fun collectLinks ::
  "config \<Rightarrow> host \<Rightarrow> string \<Rightarrow> bool \<Rightarrow> bool \<Rightarrow> bool \<Rightarrow> string \<Rightarrow> reference list
     \<Rightarrow> movedAttachmentResult \<times> vault \<Rightarrow> movedAttachmentResult \<times> vault" where
  "collectLinks c h notePath deleteExistFiles deleteEmptyFolders customized ident [] rv = rv"
| "collectLinks c h notePath deleteExistFiles deleteEmptyFolders customized ident (l # ls) rv =
     (let result = fst rv; v = snd rv; linkPath = splitSubpath (link l)
      in if linkPath = [] then
           collectLinks c h notePath deleteExistFiles deleteEmptyFolders customized ident ls rv
         else
           let fullPathLink = getFullPathForLink h linkPath notePath
           in if list_ex (\<lambda>x. oldPath x = fullPathLink) (movedAttachments result) then
                collectLinks c h notePath deleteExistFiles deleteEmptyFolders customized ident ls rv
              else
                (case extractLinkFile h v l notePath of
                   None \<Rightarrow>
                     collectLinks c h notePath deleteExistFiles deleteEmptyFolders customized ident ls rv
                 | Some file \<Rightarrow>
                     if \<not> isAttachment file then
                       collectLinks c h notePath deleteExistFiles deleteEmptyFolders customized ident ls rv
                     else
                       let target = (if \<not> customized then getAttachmentFilePath h v file notePath
                                     else getCustomizedNewPath h v notePath file ident);
                           res = moveAttachment c h v file target [notePath]
                                   deleteExistFiles deleteEmptyFolders
                       in collectLinks c h notePath deleteExistFiles deleteEmptyFolders customized ident ls
                            (\<lparr>movedAttachments = movedAttachments result @ movedAttachments (fst res),
                              renamedFiles = renamedFiles result @ renamedFiles (fst res)\<rparr>,
                             snd res)))"

definition collectAttachmentsForCachedNote ::
  "config \<Rightarrow> host \<Rightarrow> vault \<Rightarrow> string \<Rightarrow> bool \<Rightarrow> bool \<Rightarrow> bool \<Rightarrow> movedAttachmentResult \<times> vault" where
  "collectAttachmentsForCachedNote c h v notePath deleteExistFiles deleteEmptyFolders customized =
     (if isPathIgnored c notePath then (emptyResult, v)
      else
        (case getCacheSafe h v notePath of
           None \<Rightarrow> (emptyResult, v)
         | Some cache \<Rightarrow>
             (case frontmatterID cache of
                None \<Rightarrow> (emptyResult, v)
              | Some keyId \<Rightarrow>
                  if keyId = [] then (emptyResult, v)
                  else collectLinks c h notePath deleteExistFiles deleteEmptyFolders customized keyId
                         (allLinks cache) (emptyResult, v))))"

text \<open>
  \<open>deleteEmptyFolders\<close>. \<open>listSafe\<close> lists nothing for a path that is not a
  folder. The recursion follows the folder tree, so the model counts the depth
  it may still descend; \<open>None\<close> means the count ran out.
\<close>

definition listSafe :: "vault \<Rightarrow> string \<Rightarrow> string list \<times> string list" where
  "listSafe v d = (if folderExists v d then (childFiles v d, childFolders v d) else ([], []))"

definition rmdir :: "host \<Rightarrow> vault \<Rightarrow> string \<Rightarrow> error option \<times> vault" where
  "rmdir h v d =
     (case rmdirOutcome h v d of
        Removed \<Rightarrow> (None, trashFolder v d)
      | Refused e \<Rightarrow> (Some e, v)
      | LostRace e \<Rightarrow> (Some e, trashFolder v d))"

definition removeIfEmpty :: "host \<Rightarrow> vault \<Rightarrow> string \<Rightarrow> error + vault" where
  "removeIfEmpty h v d =
     (if fst (listSafe v d) = [] \<and> snd (listSafe v d) = [] then
        (if pathExists v d then
           (case rmdir h v d of
              (None, v') \<Rightarrow> Inr v'
            | (Some e, v') \<Rightarrow> if pathExists v' d then Inl e else Inr v')
         else Inr v)
      else Inr v)"

fun forEachFolder ::
  "(vault \<Rightarrow> string \<Rightarrow> (error + vault) option) \<Rightarrow> string list \<Rightarrow> vault \<Rightarrow> (error + vault) option" where
  "forEachFolder f [] v = Some (Inr v)"
| "forEachFolder f (d # ds) v =
     (case f v d of
        None \<Rightarrow> None
      | Some (Inl e) \<Rightarrow> Some (Inl e)
      | Some (Inr v') \<Rightarrow> forEachFolder f ds v')"

fun deleteEmptyFolders :: "nat \<Rightarrow> config \<Rightarrow> host \<Rightarrow> vault \<Rightarrow> string \<Rightarrow> (error + vault) option" where
  "deleteEmptyFolders 0 c h v dirName = None"
| "deleteEmptyFolders (Suc depth) c h v dirName =
     (if isPathIgnored c dirName then Some (Inr v)
      else
        let d = stripDotSlash dirName
        in (case forEachFolder (\<lambda>v' folder. deleteEmptyFolders depth c h v' folder)
                   (snd (listSafe v d)) v of
              None \<Rightarrow> None
            | Some (Inl e) \<Rightarrow> Some (Inl e)
            | Some (Inr v1) \<Rightarrow> Some (removeIfEmpty h v1 d)))"

section \<open>The rename handler\<close>

text \<open>
  The module keeps one \<open>Map\<close> from old to new paths; a JavaScript \<open>Map\<close>
  lists its entries in insertion order, and \<open>set\<close> on a key it has keeps the
  key's place. The state threaded through the handler is that map, the vault
  and what was written to the console.
\<close>

definition mapSet :: "(string \<times> string) list \<Rightarrow> string \<Rightarrow> string \<Rightarrow> (string \<times> string) list" where
  "mapSet m k x =
     (if k \<in> set (map fst m) then map (\<lambda>(k', x'). if k' = k then (k', x) else (k', x')) m
      else m @ [(k, x)])"

definition mapGet :: "(string \<times> string) list \<Rightarrow> string \<Rightarrow> string option" where
  "mapGet m k = map_of m k"

definition mapDelete :: "(string \<times> string) list \<Rightarrow> string \<Rightarrow> (string \<times> string) list" where
  "mapDelete m k = filter (\<lambda>(k', x'). k' \<noteq> k) m"

record renameState =
  renameMap :: "(string \<times> string) list"
  vaultOf :: vault
  console :: "string list"

datatype abstractFile = TFile string | TFolder string

record fileChange =
  startIndex :: nat
  endIndex :: nat
  oldContent :: string
  newContent :: string

text \<open>
  The canvas format: a node has a type, for a file node the path of its file,
  and other fields (position, size, colour, ...); the canvas has its nodes and
  other fields (the edges).
\<close>

record canvasNode =
  nodeType :: string
  nodeFile :: "string option"
  nodeRest :: string

record canvasData =
  nodes :: "canvasNode list"
  canvasRest :: string

text \<open>
  What the handler imports and does not define: the attachment-folder policy,
  the backlink index, the link rewriter (\<open>updateLink\<close>, \<open>updateLinksInFile\<close>,
  and \<open>applyFileChanges\<close>, which patches a note's text), JSON parsing and
  printing, and the numbering of a free sibling name. They are parameters of
  the model. \<open>parseCanvas\<close> is \<open>None\<close> when \<open>JSON.parse\<close> throws.
  \<open>applyFileChanges\<close> and \<open>processWithRetry\<close> write the new text of one
  file (\<open>patchFile\<close> below).
\<close>

record renameHost =
  getAttachmentFolderPath :: "vault \<Rightarrow> string \<Rightarrow> string"
  siblingName :: "vault \<Rightarrow> string \<Rightarrow> string \<Rightarrow> string"
  getBacklinksForFile :: "vault \<Rightarrow> string \<Rightarrow> (string \<times> reference list) list"
  updateLink :: "vault \<Rightarrow> reference \<Rightarrow> string \<Rightarrow> string \<Rightarrow> (string \<times> string) list \<Rightarrow> string"
  applyFileChanges :: "string \<Rightarrow> fileChange list \<Rightarrow> string"
  updateLinksInFile :: "vault \<Rightarrow> string \<Rightarrow> string \<Rightarrow> (string \<times> string) list \<Rightarrow> string"
  parseCanvas :: "string \<Rightarrow> canvasData option"
  toJson :: "canvasData \<Rightarrow> string"

definition getFileByPath :: "vault \<Rightarrow> string \<Rightarrow> string option" where
  "getFileByPath v p = (if p \<in> set (map fst (files v)) then Some p else None)"

definition writeFile :: "vault \<Rightarrow> string \<Rightarrow> string \<Rightarrow> vault" where
  "writeFile v p c = v\<lparr>files := map (\<lambda>(q, c'). if q = p then (q, c) else (q, c')) (files v)\<rparr>"

text \<open>
  Modelled from the spec: the host calls of the rename handler. Section 4.2
  has an occupied path replaced by "the next available non-colliding sibling
  name", so \<open>Vault.getAvailablePath(path, extension)\<close> is the path with its
  extension when nothing is there and a numbered sibling otherwise.
  \<open>Vault.rename\<close> is the \<open>move\<close> of section 6 and throws when the
  destination exists. \<open>Vault.recurseChildren\<close> visits everything below the
  folder (the "recursive tree enumeration" of section 6).
\<close>

definition vaultGetAvailablePath :: "renameHost \<Rightarrow> vault \<Rightarrow> string \<Rightarrow> string \<Rightarrow> string" where
  "vaultGetAvailablePath h v base ext =
     (let p = (if ext = [] then base else base @ ''.'' @ ext)
      in if pathExists v p then siblingName h v base ext else p)"

definition renameFile :: "vault \<Rightarrow> string \<Rightarrow> string \<Rightarrow> error + vault" where
  "renameFile v old new =
     (if pathExists v new then Inl (HostError ''Destination file already exists!'')
      else Inr (vaultRename v old new))"

definition recurseChildren :: "vault \<Rightarrow> string \<Rightarrow> string list" where
  "recurseChildren v d = filter (\<lambda>p. prefix (segments d) (butlast (segments p))) (map fst (files v))"

text \<open>\<open>relative\<close> of the path library: up from \<open>from\<close> to the common ancestor, then down to \<open>to\<close>.\<close>

fun commonPrefix :: "string list \<Rightarrow> string list \<Rightarrow> string list" where
  "commonPrefix (x # xs) (y # ys) = (if x = y then x # commonPrefix xs ys else [])"
| "commonPrefix xs ys = []"

definition relative :: "string \<Rightarrow> string \<Rightarrow> string" where
  "relative from to =
     (let f = normSegs False [] (segments from);
          t = normSegs False [] (segments to);
          k = length (commonPrefix f t)
      in joinSegs (replicate (length f - k) ''..'' @ drop k t))"

text \<open>\<open>fillRenameMap\<close>: the renamed file itself, then the attachments of a renamed note.\<close>

fun fillChildren ::
  "renameHost \<Rightarrow> vault \<Rightarrow> string \<Rightarrow> string \<Rightarrow> string list \<Rightarrow> (string \<times> string) list
     \<Rightarrow> (string \<times> string) list" where
  "fillChildren h v oldAttachmentFolderPath newAttachmentFolderPath [] m = m"
| "fillChildren h v oldAttachmentFolderPath newAttachmentFolderPath (child # children) m =
     (if isNote child then
        fillChildren h v oldAttachmentFolderPath newAttachmentFolderPath children m
      else
        let relativePath = relative oldAttachmentFolderPath child;
            newDir = join [newAttachmentFolderPath, dirname relativePath];
            newChildPath = join [newDir, fileName child]
        in if child \<noteq> newChildPath then
             fillChildren h v oldAttachmentFolderPath newAttachmentFolderPath children
               (mapSet m child
                  (vaultGetAvailablePath h v (join [newDir, basename child]) (extension child)))
           else fillChildren h v oldAttachmentFolderPath newAttachmentFolderPath children m)"

definition fillRenameMap :: "renameHost \<Rightarrow> renameState \<Rightarrow> string \<Rightarrow> string \<Rightarrow> renameState" where
  "fillRenameMap h s file oldP =
     (let s1 = s\<lparr>renameMap := mapSet (renameMap s) oldP file\<rparr>;
          v = vaultOf s
      in if \<not> isNote file then s1
         else
           let oldAttachmentFolderPath = getAttachmentFolderPath h v oldP;
               newAttachmentFolderPath = getAttachmentFolderPath h v file
           in if \<not> folderExists v oldAttachmentFolderPath then s1
              else if oldAttachmentFolderPath = newAttachmentFolderPath then s1
              else s1\<lparr>renameMap :=
                        fillChildren h v oldAttachmentFolderPath newAttachmentFolderPath
                          (recurseChildren v oldAttachmentFolderPath) (renameMap s1)\<rparr>)"

text \<open>
  \<open>processRename\<close>, in the order of the source: find the file, patch every
  note that links to it, rewrite the file itself when it is a canvas or a
  note, then move it. The result is the exception thrown, if any, and the
  state reached.
\<close>

definition resolveParentNote :: "renameState \<Rightarrow> string \<Rightarrow> string option" where
  "resolveParentNote s parentNotePath =
     (case getFileByPath (vaultOf s) parentNotePath of
        Some parentNote \<Rightarrow> Some parentNote
      | None \<Rightarrow>
          (case mapGet (renameMap s) parentNotePath of
             None \<Rightarrow> None
           | Some newParentNotePath \<Rightarrow>
               if newParentNotePath = [] then None
               else getFileByPath (vaultOf s) newParentNotePath))"

definition linkChanges ::
  "renameHost \<Rightarrow> renameState \<Rightarrow> string \<Rightarrow> string \<Rightarrow> string \<Rightarrow> fileChange list" where
  "linkChanges h s file parentNotePath parentNote =
     map (\<lambda>l. \<lparr>startIndex = startOffset l, endIndex = endOffset l, oldContent = original l,
                newContent = updateLink h (vaultOf s) l file parentNote (renameMap s)\<rparr>)
       (case map_of (getBacklinksForFile h (vaultOf s) file) parentNotePath of
          None \<Rightarrow> [] | Some links \<Rightarrow> links)"

definition patchFile :: "renameState \<Rightarrow> string \<Rightarrow> (string \<Rightarrow> string) \<Rightarrow> renameState" where
  "patchFile s p f =
     (case readFile (vaultOf s) p of
        None \<Rightarrow> s
      | Some content \<Rightarrow> s\<lparr>vaultOf := writeFile (vaultOf s) p (f content)\<rparr>)"

fun updateBacklinks :: "renameHost \<Rightarrow> string \<Rightarrow> string list \<Rightarrow> renameState \<Rightarrow> renameState" where
  "updateBacklinks h file [] s = s"
| "updateBacklinks h file (parentNotePath # rest) s =
     (case resolveParentNote s parentNotePath of
        None \<Rightarrow>
          updateBacklinks h file rest
            (s\<lparr>console := console s @ [''Parent note not found: '' @ parentNotePath]\<rparr>)
      | Some parentNote \<Rightarrow>
          updateBacklinks h file rest
            (patchFile s parentNote
               (\<lambda>content. applyFileChanges h content
                             (linkChanges h s file parentNotePath parentNote))))"

definition rewriteNode :: "(string \<times> string) list \<Rightarrow> canvasNode \<Rightarrow> canvasNode" where
  "rewriteNode m node =
     (if nodeType node \<noteq> ''file'' then node
      else
        (case nodeFile node of
           None \<Rightarrow> node
         | Some f \<Rightarrow>
             (case mapGet m f of
                None \<Rightarrow> node
              | Some p \<Rightarrow> if p = [] then node else node\<lparr>nodeFile := Some p\<rparr>)))"

definition rewriteCanvas :: "(string \<times> string) list \<Rightarrow> canvasData \<Rightarrow> canvasData" where
  "rewriteCanvas m canvas = canvas\<lparr>nodes := map (rewriteNode m) (nodes canvas)\<rparr>"

definition rewriteOwnContent ::
  "renameHost \<Rightarrow> renameState \<Rightarrow> string \<Rightarrow> string \<Rightarrow> error option \<times> renameState" where
  "rewriteOwnContent h s file oldP =
     (if toLowerCase (extension file) = ''canvas'' then
        (case readFile (vaultOf s) file of
           None \<Rightarrow> (None, s)
         | Some content \<Rightarrow>
             (case parseCanvas h content of
                None \<Rightarrow> (Some (HostError ''SyntaxError''), s)
              | Some canvas \<Rightarrow>
                  (None, patchFile s file (\<lambda>_. toJson h (rewriteCanvas (renameMap s) canvas)))))
      else if toLowerCase (extension file) = ''md'' then
        (None, patchFile s file (\<lambda>_. updateLinksInFile h (vaultOf s) file oldP (renameMap s)))
      else (None, s))"

definition moveOldFile :: "renameState \<Rightarrow> string \<Rightarrow> string \<Rightarrow> error option \<times> renameState" where
  "moveOldFile s oldP newP =
     (let v1 = createFolderSafe (vaultOf s) (dirname newP);
          oldFolder = parentPath oldP
      in (case renameFile v1 oldP newP of
            Inl e \<Rightarrow> (Some e, s\<lparr>vaultOf := v1\<rparr>)
          | Inr v2 \<Rightarrow>
              (None, s\<lparr>renameMap := mapDelete (renameMap s) oldP,
                       vaultOf := removeEmptyFolderHierarchy v2 oldFolder\<rparr>)))"

definition processRename ::
  "renameHost \<Rightarrow> renameState \<Rightarrow> string \<Rightarrow> string \<Rightarrow> error option \<times> renameState" where
  "processRename h s oldP newP =
     (let oldFile = getFileByPath (vaultOf s) oldP;
          newFile = getFileByPath (vaultOf s) newP
      in (case (case oldFile of Some f \<Rightarrow> Some f | None \<Rightarrow> newFile) of
            None \<Rightarrow> (None, s)
          | Some file \<Rightarrow>
              let backlinks = getBacklinksForFile h (vaultOf s) file;
                  s1 = updateBacklinks h file (map fst backlinks) s
              in (case rewriteOwnContent h s1 file oldP of
                    (Some e, s2) \<Rightarrow> (Some e, s2)
                  | (None, s2) \<Rightarrow>
                      (case oldFile of
                         None \<Rightarrow> (None, s2)
                       | Some _ \<Rightarrow> moveOldFile s2 oldP newP))))"

text \<open>
  \<open>handleRename\<close>. The loop walks the live map: an entry deleted before its
  turn is not visited. The \<open>finally\<close> block runs whether or not the loop
  threw; it also puts \<open>updateAllLinks\<close> back, which the handler had replaced
  by a function that does nothing and which is not part of the state here.
\<close>

fun processEntries ::
  "renameHost \<Rightarrow> string list \<Rightarrow> renameState \<Rightarrow> error option \<times> renameState" where
  "processEntries h [] s = (None, s)"
| "processEntries h (oldPath2 # rest) s =
     (case mapGet (renameMap s) oldPath2 of
        None \<Rightarrow> processEntries h rest s
      | Some newPath2 \<Rightarrow>
          (case processRename h s oldPath2 newPath2 of
             (Some e, s') \<Rightarrow> (Some e, s')
           | (None, s') \<Rightarrow> processEntries h rest s'))"

definition handleRename ::
  "renameHost \<Rightarrow> renameState \<Rightarrow> abstractFile \<Rightarrow> string \<Rightarrow> error option \<times> renameState" where
  "handleRename h s file oldP =
     (if renameMap s \<noteq> [] then (None, s)
      else
        let s0 = s\<lparr>console := console s @ [''Handle Rename'']\<rparr>
        in (case file of
              TFolder _ \<Rightarrow> (None, s0)
            | TFile p \<Rightarrow>
                let s1 = fillRenameMap h s0 p oldP;
                    (e, s2) = processEntries h (map fst (renameMap s1)) s1
                in (e, s2\<lparr>renameMap := mapDelete (renameMap s2) oldP\<rparr>)))"

section \<open>Example vaults\<close>

text \<open>
  A small vault used to run the handlers: two notes, \<open>A/note.md\<close> and
  \<open>B/other.md\<close>; \<open>assets/shared.png\<close> is linked from both,
  \<open>assets/own.png\<close> from \<open>A/note.md\<close> alone. Attachments belong in the
  subfolder \<open>attachments\<close> beside the note. The host resolves a link
  relative to the note (\<open>resolveRelative\<close>), or failing that from the vault
  root as well (\<open>resolveAnywhere\<close>).
\<close>

definition exampleConfig :: config where
  "exampleConfig =
     \<lparr>ignoreFolders = [''templates/''],
      ignoreFilesRegex = [\<lambda>p. toLowerCase (extension p) = ''tmp''],
      shouldDeleteEmptyFolders = False\<rparr>"

definition numberedSibling :: "string \<Rightarrow> string" where
  "numberedSibling p =
     (if dirname p = ''.'' then [] else dirname p @ ''/'') @ basename p @ '' 1.'' @ extension p"

definition exampleLinkers :: "string \<Rightarrow> string list" where
  "exampleLinkers p =
     (if p = ''assets/shared.png'' then [''A/note.md'', ''B/other.md'']
      else if p = ''assets/own.png'' then [''A/note.md'']
      else [])"

definition resolveRelative :: "vault \<Rightarrow> reference \<Rightarrow> string \<Rightarrow> string option" where
  "resolveRelative v r notePath = getFileOrNull v (join [dirname notePath, splitSubpath (link r)])"

definition resolveAnywhere :: "vault \<Rightarrow> reference \<Rightarrow> string \<Rightarrow> string option" where
  "resolveAnywhere v r notePath =
     (case resolveRelative v r notePath of
        Some f \<Rightarrow> Some f
      | None \<Rightarrow> getFileOrNull v (splitSubpath (link r)))"

definition mkLink :: "string \<Rightarrow> reference" where
  "mkLink l = \<lparr>link = l, original = ''![]('' @ l @ '')'', startOffset = 0, endOffset = 5 + length l\<rparr>"

definition exampleHost ::
  "(vault \<Rightarrow> reference \<Rightarrow> string \<Rightarrow> string option) \<Rightarrow> cachedMetadata \<Rightarrow> host" where
  "exampleHost resolve noteCache =
     \<lparr>uniqueSibling = (\<lambda>v p. numberedSibling p),
      getCachedNotesThatHaveLinkToFile = (\<lambda>v p. exampleLinkers p),
      getFullPathForLink = (\<lambda>l notePath. join [dirname notePath, l]),
      extractLinkFile = resolve,
      getCacheSafe = (\<lambda>v notePath. if notePath = ''A/note.md'' then Some noteCache else None),
      getAttachmentFilePath = (\<lambda>v file notePath. join [dirname notePath, ''attachments'', fileName file]),
      attachmentFolderPath = ''./attachments'',
      md5 = (\<lambda>data. ''0cc175b9''),
      rmdirOutcome = (\<lambda>v d. Removed)\<rparr>"

definition exampleVault :: vault where
  "exampleVault =
     \<lparr>files = [(''A/note.md'', ''note''), (''B/other.md'', ''other''),
               (''assets/shared.png'', ''shared bytes''), (''assets/own.png'', ''own bytes''),
               (''templates/logo.png'', ''logo bytes'')],
      folders = [''A'', ''B'', ''assets'', ''templates'']\<rparr>"

text \<open>
  The two conditions of the conflict table in section 4.4 of the spec, as
  \<open>moveAttachment\<close> evaluates them: \<open>shared\<close>, another note than the ones
  being processed links to the attachment (asked once the folder of the target
  exists); \<open>collision\<close>, a file exists at the target.
\<close>

definition shared :: "host \<Rightarrow> vault \<Rightarrow> string \<Rightarrow> string \<Rightarrow> string list \<Rightarrow> bool" where
  "shared h v file target parentNotePaths =
     (otherLinkedNotes h (createFolderForAttachmentFromPath v target) file parentNotePaths \<noteq> [])"

definition collision :: "vault \<Rightarrow> string \<Rightarrow> bool" where
  "collision v target = (getFileOrNull v target \<noteq> None)"

text \<open>The example vault with a file already at the target of \<open>assets/shared.png\<close>.\<close>

definition collidingVault :: vault where
  "collidingVault =
     \<lparr>files = [(''A/note.md'', ''note''), (''B/other.md'', ''other''),
               (''assets/shared.png'', ''shared bytes''), (''assets/own.png'', ''own bytes''),
               (''A/attachments/shared.png'', ''older bytes'')],
      folders = [''A'', ''B'', ''assets'', ''A/attachments'']\<rparr>"

definition plainHost :: host where
  "plainHost = exampleHost resolveRelative \<lparr>frontmatterID = Some ''n1'', allLinks = []\<rparr>"

text \<open>
  A folder path as the host lists it: not the root, no empty segment, no
  leading \<open>./\<close>.
\<close>

definition listedFolder :: "string \<Rightarrow> bool" where
  "listedFolder f = (segments f \<noteq> [] \<and> joinSegs (segments f) = f \<and> \<not> startsWith f ''./'')"

definition deepest :: "vault \<Rightarrow> nat" where
  "deepest v = fold max (map (\<lambda>f. length (segments f)) (folders v)) 0"

text \<open>
  A vault with an empty folder \<open>drafts\<close> and an empty folder \<open>old/2019\<close>,
  and two adapters that fail to remove a folder: one leaves it in place, the
  other finds it already gone.
\<close>

definition tidyVault :: vault where
  "tidyVault =
     \<lparr>files = [(''A/note.md'', ''note'')],
      folders = [''A'', ''drafts'', ''old'', ''old/2019'', ''templates'']\<rparr>"

definition refusingHost :: host where
  "refusingHost = plainHost\<lparr>rmdirOutcome := (\<lambda>v d. Refused (HostError ''ENOTEMPTY''))\<rparr>"

definition racingHost :: host where
  "racingHost = plainHost\<lparr>rmdirOutcome := (\<lambda>v d. LostRace (HostError ''ENOENT''))\<rparr>"

text \<open>
  A vault for the rename handler: the note \<open>A/note.md\<close> was just renamed to
  \<open>B/note.md\<close>; its attachments are kept in a folder named after the note,
  so they have to follow from \<open>A/note\<close> to \<open>B/note\<close>. A canvas
  \<open>boards/plan.canvas\<close> shows the image and a text card.
\<close>

definition exampleCanvas :: canvasData where
  "exampleCanvas =
     \<lparr>nodes = [\<lparr>nodeType = ''file'', nodeFile = Some ''A/note/img.png'', nodeRest = ''x:0,y:0''\<rparr>,
               \<lparr>nodeType = ''text'', nodeFile = None, nodeRest = ''text:A/note/img.png''\<rparr>,
               \<lparr>nodeType = ''file'', nodeFile = Some ''B/other.md'', nodeRest = ''x:9,y:9''\<rparr>],
      canvasRest = ''edges:[]''\<rparr>"

definition renamedVault :: vault where
  "renamedVault =
     \<lparr>files = [(''B/note.md'', ''![](note/img.png)''), (''A/note/img.png'', ''img bytes''),
               (''A/note/sub/doc.pdf'', ''pdf bytes''), (''A/note/inner.md'', ''inner''),
               (''B/other.md'', ''other''), (''boards/plan.canvas'', ''canvas json'')],
      folders = [''A'', ''A/note'', ''A/note/sub'', ''B'', ''boards'']\<rparr>"

definition exampleRenameHost :: renameHost where
  "exampleRenameHost =
     \<lparr>getAttachmentFolderPath = (\<lambda>v p. join [dirname p, basename p]),
      siblingName = (\<lambda>v base ext. base @ '' 1.'' @ ext),
      getBacklinksForFile = (\<lambda>v f. if f = ''A/note/img.png''
                                     then [(''A/note.md'', [mkLink ''note/img.png''])] else []),
      updateLink = (\<lambda>v l f parentNote m. original l),
      applyFileChanges = (\<lambda>content changes. content),
      updateLinksInFile = (\<lambda>v f oldP m. case readFile v f of None \<Rightarrow> [] | Some content \<Rightarrow> content),
      parseCanvas = (\<lambda>content. if content = ''canvas json'' then Some exampleCanvas else None),
      toJson = (\<lambda>canvas. ''canvas json, rewritten'')\<rparr>"

definition idleState :: renameState where
  "idleState = \<lparr>renameMap = [], vaultOf = renamedVault, console = []\<rparr>"

definition busyState :: renameState where
  "busyState = \<lparr>renameMap = [(''A/note.md'', ''B/note.md''), (''A/note/img.png'', ''B/note/img.png'')],
                 vaultOf = renamedVault, console = [''Handle Rename'']\<rparr>"



text \<open>
  The vault of a rename whose cascade collides with itself: \<open>B/note/img.png\<close>
  is taken, so \<open>A/note/img.png\<close> is given the sibling name
  \<open>B/note/img 1.png\<close>, which is also where \<open>A/note/img 1.png\<close> goes.
\<close>

definition crowdedVault :: vault where
  "crowdedVault =
     \<lparr>files = [(''B/note.md'', ''![](note/img.png)''), (''A/note/img.png'', ''first''),
               (''A/note/img 1.png'', ''second''), (''B/note/img.png'', ''already here'')],
      folders = [''A'', ''A/note'', ''B'', ''B/note'']\<rparr>"

text \<open>
  A cascade with canvases in it: \<open>boards/plan.canvas\<close> was renamed from
  \<open>drafts/plan.canvas\<close> and is found at its new path only;
  \<open>A/note/plan.canvas\<close> is an attachment still at its old path. Both hold
  the example canvas. This host prints a canvas as its nodes, type and file,
  then its other fields.
\<close>

definition printCanvas :: "canvasData \<Rightarrow> string" where
  "printCanvas canvas =
     concat (map (\<lambda>n. nodeType n @ '':'' @ (case nodeFile n of None \<Rightarrow> ''-'' | Some f \<Rightarrow> f) @ '';'')
               (nodes canvas)) @ canvasRest canvas"

definition canvasHost :: renameHost where
  "canvasHost = exampleRenameHost\<lparr>toJson := printCanvas\<rparr>"

definition canvasVault :: vault where
  "canvasVault =
     \<lparr>files = [(''B/note.md'', ''![](note/img.png)''), (''A/note/img.png'', ''img bytes''),
               (''A/note/plan.canvas'', ''canvas json''), (''B/other.md'', ''other''),
               (''boards/plan.canvas'', ''canvas json'')],
      folders = [''A'', ''A/note'', ''B'', ''boards'']\<rparr>"

definition canvasState :: renameState where
  "canvasState =
     \<lparr>renameMap = [(''drafts/plan.canvas'', ''boards/plan.canvas''),
                   (''A/note/img.png'', ''B/note/img.png''),
                   (''A/note/plan.canvas'', ''B/note/plan.canvas'')],
      vaultOf = canvasVault, console = [''Handle Rename'']\<rparr>"







section \<open>Properties of files-handler.ts\<close>

text \<open>
  C9. A path that starts with one of the ignored folders, or that one of the
  ignored patterns matches (after a leading \<open>./\<close> is dropped), is left alone:
  \<open>moveAttachment\<close> on such a file and \<open>collectAttachmentsForCachedNote\<close> on
  such a note both return the empty result and the vault as it was.
\<close>

theorem ignored_path_is_noop:
  assumes "list_ex (\<lambda>folder. startsWith (stripDotSlash p) folder) (ignoreFolders c)
           \<or> list_ex (\<lambda>fileRegex. fileRegex (stripDotSlash p)) (ignoreFilesRegex c)"
  shows "moveAttachment c h v p newLinkPath parentNotePaths deleteExistFiles pruneFolders
           = (\<lparr>movedAttachments = [], renamedFiles = []\<rparr>, v)
         \<and> collectAttachmentsForCachedNote c h v p deleteExistFiles pruneFolders customized
           = (\<lparr>movedAttachments = [], renamedFiles = []\<rparr>, v)"
proof -
  from assms have "isPathIgnored c p"
    by (simp add: isPathIgnored_def)
  then show ?thesis
    by (simp add: moveAttachment_def collectAttachmentsForCachedNote_def emptyResult_def)
qed

theorem ignored_path_is_noop_witness:
  "moveAttachment exampleConfig (exampleHost resolveAnywhere \<lparr>frontmatterID = Some ''n1'', allLinks = []\<rparr>)
       exampleVault ''./templates/logo.png'' ''A/attachments/logo.png'' [''A/note.md''] True True
     = (\<lparr>movedAttachments = [], renamedFiles = []\<rparr>, exampleVault)
   \<and> collectAttachmentsForCachedNote exampleConfig
       (exampleHost resolveAnywhere \<lparr>frontmatterID = Some ''n1'', allLinks = []\<rparr>)
       exampleVault ''./templates/logo.png'' True True False
     = (\<lparr>movedAttachments = [], renamedFiles = []\<rparr>, exampleVault)"
  by (rule ignored_path_is_noop)
     (simp add: exampleConfig_def stripDotSlash_def startsWith_def)







text \<open>
  C6, as the code has it. The check of the frontmatter \<open>ID\<close> comes before the
  loop and does not look at the naming mode: a note whose \<open>ID\<close> is absent or
  empty is skipped, with nothing collected and the vault untouched, in the
  customized mode and in the default mode alike.
\<close>

theorem missing_id_skips_note_in_both_modes:
  assumes "getCacheSafe h v notePath = Some cache"
    and "frontmatterID cache = None \<or> frontmatterID cache = Some []"
  shows "collectAttachmentsForCachedNote c h v notePath d e customized
           = (\<lparr>movedAttachments = [], renamedFiles = []\<rparr>, v)"
  using assms
  by (auto simp: collectAttachmentsForCachedNote_def emptyResult_def)

theorem missing_id_skips_note_in_both_modes_witness:
  "collectAttachmentsForCachedNote exampleConfig
      (exampleHost resolveRelative
         \<lparr>frontmatterID = None, allLinks = [mkLink ''../assets/own.png'']\<rparr>)
      exampleVault ''A/note.md'' False True True
     = (\<lparr>movedAttachments = [], renamedFiles = []\<rparr>, exampleVault)"
  by (rule missing_id_skips_note_in_both_modes
        [where cache = "\<lparr>frontmatterID = None, allLinks = [mkLink ''../assets/own.png'']\<rparr>"])
     (simp_all add: exampleHost_def)

text \<open>
  The claim as it was stated fails in the default mode: the same note, with the
  same link to \<open>assets/own.png\<close>, has its attachment moved when it carries an
  \<open>ID\<close> and is skipped when it does not.
\<close>

theorem default_mode_requires_id:
  "collectAttachmentsForCachedNote exampleConfig
      (exampleHost resolveRelative
         \<lparr>frontmatterID = None, allLinks = [mkLink ''../assets/own.png'']\<rparr>)
      exampleVault ''A/note.md'' False True False
     = (\<lparr>movedAttachments = [], renamedFiles = []\<rparr>, exampleVault)
   \<and> movedAttachments (fst (collectAttachmentsForCachedNote exampleConfig
      (exampleHost resolveRelative
         \<lparr>frontmatterID = Some ''n1'', allLinks = [mkLink ''../assets/own.png'']\<rparr>)
      exampleVault ''A/note.md'' False True False))
     = [\<lparr>newPath = ''A/attachments/own.png'', oldPath = ''assets/own.png''\<rparr>]"
  by code_simp

text \<open>
  Facts about paths and folders used below: splitting a path that was joined
  from segments gives the segments back; creating the folder of a path never
  creates a folder at the path itself; folder operations leave the files
  alone; pruning stops at once at a folder that still holds a file.
\<close>

lemma splitOn_no_sep: "c \<notin> set s \<Longrightarrow> splitOn c s = [s]"
  by (induction s) auto

lemma splitOn_append_sep: "c \<notin> set s \<Longrightarrow> splitOn c (s @ c # r) = s # splitOn c r"
  by (induction s) auto

lemma splitOn_parts: "s \<in> set (splitOn c p) \<Longrightarrow> c \<notin> set s"
  by (induction p arbitrary: s) (auto split: list.splits if_splits)

lemma segments_valid: "s \<in> set (segments p) \<Longrightarrow> s \<noteq> [] \<and> CHR ''/'' \<notin> set s"
  by (auto simp: segments_def dest: splitOn_parts)

lemma segments_joinSegs:
  "\<forall>s\<in>set ss. s \<noteq> [] \<and> CHR ''/'' \<notin> set s \<Longrightarrow> segments (joinSegs ss) = ss"
proof (induction ss rule: joinSegs.induct)
  case 1
  then show ?case by (simp add: segments_def)
next
  case (2 s)
  then show ?case by (simp add: segments_def splitOn_no_sep)
next
  case (3 s t ss)
  then have "segments (joinSegs (t # ss)) = t # ss" by simp
  with 3 show ?case by (simp add: segments_def splitOn_append_sep)
qed

lemma segments_of_prefix:
  assumes "prefix pre (segments p)"
  shows "segments (joinSegs pre) = pre"
proof (rule segments_joinSegs)
  from assms have "set pre \<subseteq> set (segments p)" by (rule set_mono_prefix)
  then show "\<forall>s\<in>set pre. s \<noteq> [] \<and> CHR ''/'' \<notin> set s"
    using segments_valid by blast
qed

lemma segments_parentPath: "segments (parentPath p) = butlast (segments p)"
proof (cases "butlast (segments p)")
  case Nil
  then show ?thesis by (simp add: parentPath_def segments_def)
next
  case (Cons a as)
  have "prefix (butlast (segments p)) (segments p)" by (rule prefixeq_butlast)
  then have "segments (joinSegs (butlast (segments p))) = butlast (segments p)"
    by (rule segments_of_prefix)
  with Cons show ?thesis by (simp add: parentPath_def)
qed

lemma segments_dirname_nonroot:
  "butlast (segments p) \<noteq> [] \<Longrightarrow> dirname p = parentPath p"
  by (cases "butlast (segments p)") (simp_all add: dirname_def parentPath_def)

lemma isRoot_dirname: "butlast (segments p) = [] \<Longrightarrow> isRoot (dirname p) \<and> isRoot (parentPath p)"
  by (simp add: dirname_def parentPath_def isRoot_def segments_def)

lemma folderExists_dirname: "folderExists v (dirname p) = folderExists v (parentPath p)"
  by (cases "butlast (segments p) = []")
     (auto simp: folderExists_def isRoot_dirname segments_dirname_nonroot)

lemma folderChain_parentPath_misses:
  "p \<notin> set (folderChain (parentPath p))"
proof
  assume "p \<in> set (folderChain (parentPath p))"
  then obtain pre where pre: "pre \<in> set (prefixes (segments (parentPath p)))" "p = joinSegs pre"
    by (auto simp: folderChain_def split: if_splits dest: list.set_sel(2)[rotated])
  then have pb: "prefix pre (butlast (segments p))"
    by (simp add: segments_parentPath in_set_prefixes)
  then have "prefix pre (segments p)"
    using prefixeq_butlast prefix_order.order_trans by blast
  then have "segments p = pre" using pre(2) segments_of_prefix by metis
  with pb have "prefix (segments p) (butlast (segments p))" by simp
  then have "length (segments p) \<le> length (butlast (segments p))" by (rule prefix_length_le)
  then have "segments p = []" by (cases "segments p") (simp_all split: if_splits)
  with pre(2) \<open>segments p = pre\<close> have "p = []" by simp
  with \<open>p \<in> set (folderChain (parentPath p))\<close> show False
    by (simp add: folderChain_def parentPath_def segments_def isRoot_def)
qed

lemma folderChain_dirname: "folderChain (dirname p) = folderChain (parentPath p)"
proof (cases "butlast (segments p) = []")
  case True
  then show ?thesis using isRoot_dirname[OF True] by (simp add: folderChain_def)
next
  case False
  then show ?thesis by (simp add: segments_dirname_nonroot)
qed

lemma files_createFolderSafe [simp]: "files (createFolderSafe v d) = files v"
  by (simp add: createFolderSafe_def)

lemma folders_createFolderSafe:
  "set (folders (createFolderSafe v d)) \<subseteq> set (folders v) \<union> set (folderChain d)"
  by (auto simp: createFolderSafe_def)

lemma createFolderSafe_existing: "folderExists v d \<Longrightarrow> createFolderSafe v d = v"
  by (simp add: createFolderSafe_def pathExists_def)

lemma not_created_parent:
  "\<not> folderExists v p \<Longrightarrow> \<not> folderExists (createFolderSafe v (parentPath p)) p"
  using folders_createFolderSafe[of v "parentPath p"] folderChain_parentPath_misses[of p]
  by (auto simp: folderExists_def)

lemma not_created_dirname:
  "\<not> folderExists v p \<Longrightarrow> \<not> folderExists (createFolderSafe v (dirname p)) p"
  using folders_createFolderSafe[of v "dirname p"] folderChain_parentPath_misses[of p]
  by (auto simp: folderExists_def folderChain_dirname)

lemma files_pruneChain [simp]: "files (pruneChain v ds) = files v"
  by (induction ds arbitrary: v) (auto simp: trashFolder_def)

lemma files_trashEmptyDirs [simp]: "files (trashEmptyDirs v ds) = files v"
  by (induction ds arbitrary: v) (auto simp: trashFolder_def)

lemma files_deleteEmptyFolderHierarchy [simp]: "files (deleteEmptyFolderHierarchy v d) = files v"
  by (simp add: deleteEmptyFolderHierarchy_def)

lemma files_deleteFile [simp]: "files (deleteFile v p e) = files (trashFile v p)"
  by (simp add: deleteFile_def Let_def trashFile_def)

lemma files_vaultRename_cong: "files v = files w \<Longrightarrow> files (vaultRename v a b) = files (vaultRename w a b)"
  by (simp add: vaultRename_def)

lemma files_vaultCopy_cong: "files v = files w \<Longrightarrow> files (vaultCopy v a b) = files (vaultCopy w a b)"
  by (simp add: vaultCopy_def readFile_def split: option.splits)


lemma parentPath_parentPath_child: "parentPath (parentPath p @ ''/x'') = parentPath p"
proof -
  have ne: "splitOn CHR ''/'' a \<noteq> []" for a
    by (induction a) (auto split: list.splits)
  have "splitOn CHR ''/'' (a @ CHR ''/'' # b) = splitOn CHR ''/'' a @ splitOn CHR ''/'' b" for a b
    by (induction a) (auto simp: ne split: list.splits)
  then have seg: "segments (a @ ''/x'') = segments a @ [''x'']" for a
    by (simp add: segments_def)
  show ?thesis
  proof (cases "butlast (segments p)")
    case Nil
    then show ?thesis by (simp add: parentPath_def segments_def)
  next
    case (Cons a as)
    have "segments (parentPath p @ ''/x'') = butlast (segments p) @ [''x'']"
      by (simp add: seg segments_parentPath)
    then show ?thesis using Cons by (simp add: parentPath_def)
  qed
qed

lemma childFiles_parentPath:
  "p \<in> fst ` set (files v) \<Longrightarrow> p \<in> set (childFiles v (parentPath p))"
  by (auto simp: childFiles_def parentPath_parentPath_child)

lemma last_folderChain:
  assumes nr: "\<not> isRoot (parentPath p)"
  shows "rev (folderChain (parentPath p))
           = parentPath p # rev (butlast (folderChain (parentPath p)))"
proof -
  define ss where "ss = butlast (segments p)"
  have ne: "ss \<noteq> []"
    using nr by (auto simp: isRoot_def segments_parentPath ss_def)
  have pp: "parentPath p = joinSegs ss"
    using ne by (cases "butlast (segments p)") (simp_all add: parentPath_def ss_def)
  have chain: "folderChain (parentPath p) = map joinSegs (tl (prefixes ss))"
    using nr by (simp add: folderChain_def segments_parentPath ss_def)
  have tl_ne: "tl (prefixes ss) \<noteq> []"
    using ne by (cases ss) simp_all
  have "last (tl (prefixes ss)) = ss"
    using tl_ne by (metis last_prefixes last_tl prefixes_not_Nil list.sel(2))
  then have "map joinSegs (tl (prefixes ss)) \<noteq> []
             \<and> last (map joinSegs (tl (prefixes ss))) = joinSegs ss"
    using tl_ne by (simp add: last_map)
  then have "folderChain (parentPath p) \<noteq> []
             \<and> last (folderChain (parentPath p)) = joinSegs ss"
    by (simp add: chain)
  then have "folderChain (parentPath p) \<noteq> [] \<and> last (folderChain (parentPath p)) = parentPath p"
    using pp by simp
  then have "folderChain (parentPath p) = butlast (folderChain (parentPath p)) @ [parentPath p]"
    by (metis append_butlast_last_id)
  then have "rev (folderChain (parentPath p))
               = rev (butlast (folderChain (parentPath p)) @ [parentPath p])"
    by simp
  then show ?thesis by simp
qed

lemma prune_keeps_home:
  assumes "p \<in> fst ` set (files v)"
  shows "deleteEmptyFolderHierarchy v (parentPath p) = v"
proof (cases "isRoot (parentPath p)")
  case True
  then show ?thesis by (simp add: deleteEmptyFolderHierarchy_def folderChain_def)
next
  case False
  from childFiles_parentPath[OF assms] have "childFiles v (parentPath p) \<noteq> []" by auto
  then show ?thesis
    by (simp add: deleteEmptyFolderHierarchy_def last_folderChain[OF False])
qed

text \<open>
  The six branches of \<open>moveAttachment\<close>, one lemma each: what is recorded
  and which files the vault holds afterwards, in terms of the host's move, copy
  and delete.
\<close>

lemma getAvailablePath_free: "\<not> pathExists v p \<Longrightarrow> getAvailablePath h v p = p"
  by (simp add: getAvailablePath_def)

lemma getAvailablePath_taken: "p \<in> fst ` set (files v) \<Longrightarrow> getAvailablePath h v p = uniqueSibling h v p"
  by (auto simp: getAvailablePath_def pathExists_def)

lemma pathExists_createFolderSafe_dirname:
  "p \<notin> fst ` set (files v) \<Longrightarrow> \<not> folderExists v p
     \<Longrightarrow> \<not> pathExists (createFolderSafe v (dirname p)) p"
  using not_created_dirname[of v p] by (auto simp: pathExists_def)

lemma pathExists_createFolderSafe_parent:
  "p \<notin> fst ` set (files v) \<Longrightarrow> \<not> folderExists v p
     \<Longrightarrow> \<not> pathExists (createFolderSafe v (parentPath p)) p"
  using not_created_parent[of v p] by (auto simp: pathExists_def)

lemma folderExists_createFolderSafe_mono:
  "folderExists v p \<Longrightarrow> folderExists (createFolderSafe v d) p"
  by (auto simp: folderExists_def createFolderSafe_def)

lemma not_folderExists_twice:
  assumes "\<not> folderExists v p"
  shows "\<not> folderExists (createFolderSafe (createFolderSafe v (dirname p)) (parentPath p)) p"
proof -
  have "set (folders (createFolderSafe (createFolderSafe v (dirname p)) (parentPath p)))
          \<subseteq> set (folders v) \<union> set (folderChain (parentPath p))"
    using folders_createFolderSafe[of "createFolderSafe v (dirname p)" "parentPath p"]
      folders_createFolderSafe[of v "dirname p"]
    by (auto simp: folderChain_dirname)
  then show ?thesis
    using assms folderChain_parentPath_misses[of p] by (auto simp: folderExists_def)
qed

lemma row_move:
  assumes "\<not> isPathIgnored c file" "isAttachment file" "file \<noteq> target"
    and "\<not> folderExists v target"
    and "otherLinkedNotes h (createFolderForAttachmentFromPath v target) file parents = []"
    and "target \<notin> fst ` set (files v)"
  shows "fst (moveAttachment c h v file target parents dx pf)
           = \<lparr>movedAttachments = [\<lparr>newPath = target, oldPath = file\<rparr>], renamedFiles = []\<rparr>
         \<and> files (snd (moveAttachment c h v file target parents dx pf))
           = files (vaultRename v file target)"
proof -
  have free: "getAvailablePath h (createFolderSafe v (dirname target)) target = target"
    using assms(4,6) by (intro getAvailablePath_free pathExists_createFolderSafe_dirname)
  show ?thesis
    using assms free
    by (simp add: moveAttachment_def createFolderForAttachmentFromPath_def getFileOrNull_def
          renameSafe_def Let_def vaultRename_def)
qed

lemma row_delete:
  assumes "\<not> isPathIgnored c file" "isAttachment file" "file \<noteq> target"
    and "otherLinkedNotes h (createFolderForAttachmentFromPath v target) file parents = []"
    and "target \<in> fst ` set (files v)"
  shows "fst (moveAttachment c h v file target parents True pf)
           = \<lparr>movedAttachments = [\<lparr>newPath = target, oldPath = file\<rparr>], renamedFiles = []\<rparr>
         \<and> files (snd (moveAttachment c h v file target parents True pf))
           = files (trashFile v file)"
  using assms
  by (simp add: moveAttachment_def createFolderForAttachmentFromPath_def getFileOrNull_def
        Let_def trashFile_def)

lemma row_rename:
  assumes "\<not> isPathIgnored c file" "isAttachment file" "file \<noteq> target"
    and "file \<in> fst ` set (files v)"
    and "otherLinkedNotes h (createFolderForAttachmentFromPath v target) file parents = []"
    and "target \<in> fst ` set (files v)"
    and "folderExists v (parentPath target)"
    and "\<not> pathExists v (uniqueSibling h v target)"
  shows "fst (moveAttachment c h v file target parents False pf)
           = \<lparr>movedAttachments = [\<lparr>newPath = uniqueSibling h v target, oldPath = file\<rparr>],
              renamedFiles = [\<lparr>newPath = uniqueSibling h v target, oldPath = target\<rparr>]\<rparr>
         \<and> files (snd (moveAttachment c h v file target parents False pf))
           = files (vaultRename v file (uniqueSibling h v target))"
proof -
  have v1: "createFolderSafe v (dirname target) = v"
    using assms(7) by (simp add: createFolderSafe_existing folderExists_dirname)
  have u: "getAvailablePath h v target = uniqueSibling h v target"
    using assms(6) by (rule getAvailablePath_taken)
  have uu: "getAvailablePath h v (uniqueSibling h v target) = uniqueSibling h v target"
    using assms(8) by (rule getAvailablePath_free)
  have ne: "file \<noteq> uniqueSibling h v target"
    using assms(4,8) by (force simp: pathExists_def)
  show ?thesis
    using assms(1-3,5,6) v1 u uu ne
    by (simp add: moveAttachment_def createFolderForAttachmentFromPath_def getFileOrNull_def
          renameSafe_def Let_def vaultRename_def)
qed

lemma row_copy:
  assumes "\<not> isPathIgnored c file" "isAttachment file" "file \<noteq> target"
    and "\<not> folderExists v target"
    and "otherLinkedNotes h (createFolderForAttachmentFromPath v target) file parents \<noteq> []"
    and "target \<notin> fst ` set (files v)"
  shows "fst (moveAttachment c h v file target parents dx pf)
           = \<lparr>movedAttachments = [\<lparr>newPath = target, oldPath = file\<rparr>], renamedFiles = []\<rparr>
         \<and> files (snd (moveAttachment c h v file target parents dx pf))
           = files (vaultCopy v file target)"
proof -
  have "\<not> pathExists (createFolderSafe (createFolderSafe v (dirname target)) (parentPath target)) target"
    using assms(6) not_folderExists_twice[OF assms(4)] by (simp add: pathExists_def)
  then have free: "getAvailablePath h
      (createFolderSafe (createFolderSafe v (dirname target)) (parentPath target)) target = target"
    by (rule getAvailablePath_free)
  have cp: "files (vaultCopy (createFolderSafe (createFolderSafe v (dirname target)) (parentPath target))
              file target) = files (vaultCopy v file target)"
    by (rule files_vaultCopy_cong) simp
  show ?thesis
    using assms free cp
    by (simp add: moveAttachment_def createFolderForAttachmentFromPath_def getFileOrNull_def
          copySafe_def Let_def)
qed

lemma row_rename_and_copy_back:
  assumes "\<not> isPathIgnored c file" "isAttachment file" "file \<noteq> target"
    and "file \<in> fst ` set (files v)" "\<not> folderExists v file"
    and "otherLinkedNotes h (createFolderForAttachmentFromPath v target) file parents \<noteq> []"
    and "target \<in> fst ` set (files v)"
    and "folderExists v (parentPath target)"
    and "\<not> pathExists v (uniqueSibling h v target)"
    and "folderExists v (parentPath (uniqueSibling h v target))"
  shows "fst (moveAttachment c h v file target parents False pf)
           = \<lparr>movedAttachments = [\<lparr>newPath = uniqueSibling h v target, oldPath = file\<rparr>],
              renamedFiles = [\<lparr>newPath = uniqueSibling h v target, oldPath = target\<rparr>]\<rparr>
         \<and> files (snd (moveAttachment c h v file target parents False pf))
           = files (vaultCopy (vaultRename v file (uniqueSibling h v target))
                      (uniqueSibling h v target) file)"
proof -
  define u where "u = uniqueSibling h v target"
  define v' where "v' = vaultRename v file u"
  have v1: "createFolderSafe v (dirname target) = v"
    using assms(8) by (simp add: createFolderSafe_existing folderExists_dirname)
  have vu: "createFolderSafe v (parentPath u) = v"
    using assms(10) by (simp add: createFolderSafe_existing u_def)
  have u: "getAvailablePath h v target = u"
    using assms(7) unfolding u_def by (rule getAvailablePath_taken)
  have uu: "getAvailablePath h v u = u"
    using assms(9) unfolding u_def by (rule getAvailablePath_free)
  have ne: "file \<noteq> u"
    using assms(4,9) by (force simp: pathExists_def u_def)
  have rs: "renameSafe h v file u = (u, v')"
    using uu ne vu by (simp add: renameSafe_def v'_def)
  have gone: "file \<notin> fst ` set (files v')"
    using ne by (auto simp: v'_def vaultRename_def split: if_splits)
  have "\<not> folderExists v' file"
    using assms(5) by (simp add: v'_def vaultRename_def folderExists_def)
  then have "\<not> pathExists (createFolderSafe v' (parentPath file)) file"
    using gone by (intro pathExists_createFolderSafe_parent)
  then have home: "getAvailablePath h (createFolderSafe v' (parentPath file)) file = file"
    by (rule getAvailablePath_free)
  have cp: "files (vaultCopy (createFolderSafe v' (parentPath file)) u file) = files (vaultCopy v' u file)"
    by (rule files_vaultCopy_cong) simp
  have cs: "files (snd (copySafe h v' u file)) = files (vaultCopy v' u file)"
    using home cp by (simp add: copySafe_def Let_def)
  show ?thesis
    using assms(1-3,6,7) v1 u rs cs
    by (simp add: moveAttachment_def createFolderForAttachmentFromPath_def getFileOrNull_def
          Let_def u_def[symmetric] v'_def[symmetric])
qed

lemma row_keep:
  assumes "\<not> isPathIgnored c file" "isAttachment file" "file \<noteq> target"
    and "file \<in> fst ` set (files v)"
    and "otherLinkedNotes h (createFolderForAttachmentFromPath v target) file parents \<noteq> []"
    and "target \<in> fst ` set (files v)"
    and "folderExists v (parentPath target)"
  shows "moveAttachment c h v file target parents True pf
           = (\<lparr>movedAttachments = [\<lparr>newPath = target, oldPath = file\<rparr>], renamedFiles = []\<rparr>, v)"
proof -
  have v1: "createFolderSafe v (dirname target) = v"
    using assms(7) by (simp add: createFolderSafe_existing folderExists_dirname)
  show ?thesis
    using assms(1-3,5,6) v1 prune_keeps_home[OF assms(4)]
    by (simp add: moveAttachment_def createFolderForAttachmentFromPath_def getFileOrNull_def Let_def)
qed

text \<open>
  What the host's move, copy and delete do to the content found at a path.
\<close>

lemma map_of_rename_new:
  "new \<notin> fst ` set fs \<Longrightarrow>
   map_of (map (\<lambda>(p, c). if p = old then (new, c) else (p, c)) fs) new = map_of fs old"
  by (induction fs) (auto split: prod.splits)

lemma map_of_rename_old:
  "old \<noteq> new \<Longrightarrow>
   map_of (map (\<lambda>(p, c). if p = old then (new, c) else (p, c)) fs) old = None"
  by (induction fs) (auto split: prod.splits)

lemma map_of_rename_other:
  "q \<noteq> old \<Longrightarrow> q \<noteq> new \<Longrightarrow>
   map_of (map (\<lambda>(p, c). if p = old then (new, c) else (p, c)) fs) q = map_of fs q"
  by (induction fs) (auto split: prod.splits)


lemma readFile_vaultRename:
  assumes "new \<notin> fst ` set (files v)" "old \<noteq> new"
  shows "readFile (vaultRename v old new) new = readFile v old
         \<and> readFile (vaultRename v old new) old = None
         \<and> (q \<noteq> old \<and> q \<noteq> new \<longrightarrow> readFile (vaultRename v old new) q = readFile v q)"
  using assms
  by (simp add: readFile_def vaultRename_def map_of_rename_new map_of_rename_old
        map_of_rename_other)

lemma readFile_vaultCopy:
  assumes "new \<notin> fst ` set (files v)"
  shows "readFile (vaultCopy v old new) new = readFile v old
         \<and> (q \<noteq> new \<longrightarrow> readFile (vaultCopy v old new) q = readFile v q)"
proof -
  have none: "map_of (files v) new = None"
    using assms by (simp add: map_of_eq_None_iff)
  show ?thesis
  proof (cases "map_of (files v) old")
    case None
    then show ?thesis using none by (simp add: readFile_def vaultCopy_def)
  next
    case (Some c)
    then show ?thesis using none
      by (simp add: readFile_def vaultCopy_def map_add_def split: option.splits)
  qed
qed

lemma map_of_trash:
  "map_of (filter (\<lambda>(q, c). q \<noteq> p) fs) p = None
   \<and> (q \<noteq> p \<longrightarrow> map_of (filter (\<lambda>(q, c). q \<noteq> p) fs) q = map_of fs q)"
  by (induction fs) (auto split: prod.splits)

lemma readFile_trashFile:
  "readFile (trashFile v p) p = None
   \<and> (q \<noteq> p \<longrightarrow> readFile (trashFile v p) q = readFile v q)"
  using map_of_trash[of p "files v" q] by (simp add: readFile_def trashFile_def)


text \<open>
  C1, as the code has it. For an attachment that passes the three early
  checks, exists, and whose path and target are not folders, the outcome
  follows the table of section 4.4 in five of its six rows: move; delete the
  attachment; move to the unique sibling and record the redirect; copy; move
  to the unique sibling, copy back and record the redirect. In the sixth row
  (shared, collision, \<open>deleteExistFiles\<close>) the vault is left exactly as it
  was and no redirect is recorded, but the result does record one moved
  attachment, from the file's path to the target. The rows that use a sibling
  name assume what the host guarantees of it: nothing exists there yet.
\<close>

theorem conflict_table:
  assumes "\<not> isPathIgnored c file" and "isAttachment file" and "file \<noteq> target"
    and "file \<in> fst ` set (files v)"
    and "\<not> folderExists v file" and "\<not> folderExists v target"
  shows
    "(\<not> shared h v file target parents \<and> \<not> collision v target \<longrightarrow>
        fst (moveAttachment c h v file target parents deleteExistFiles pruneFolders)
          = \<lparr>movedAttachments = [\<lparr>newPath = target, oldPath = file\<rparr>], renamedFiles = []\<rparr>
        \<and> files (snd (moveAttachment c h v file target parents deleteExistFiles pruneFolders))
          = files (vaultRename v file target))
   \<and> (\<not> shared h v file target parents \<and> collision v target \<and> deleteExistFiles \<longrightarrow>
        fst (moveAttachment c h v file target parents deleteExistFiles pruneFolders)
          = \<lparr>movedAttachments = [\<lparr>newPath = target, oldPath = file\<rparr>], renamedFiles = []\<rparr>
        \<and> files (snd (moveAttachment c h v file target parents deleteExistFiles pruneFolders))
          = files (trashFile v file))
   \<and> (\<not> shared h v file target parents \<and> collision v target \<and> \<not> deleteExistFiles
        \<and> folderExists v (parentPath target) \<and> \<not> pathExists v (uniqueSibling h v target) \<longrightarrow>
        fst (moveAttachment c h v file target parents deleteExistFiles pruneFolders)
          = \<lparr>movedAttachments = [\<lparr>newPath = uniqueSibling h v target, oldPath = file\<rparr>],
             renamedFiles = [\<lparr>newPath = uniqueSibling h v target, oldPath = target\<rparr>]\<rparr>
        \<and> files (snd (moveAttachment c h v file target parents deleteExistFiles pruneFolders))
          = files (vaultRename v file (uniqueSibling h v target)))
   \<and> (shared h v file target parents \<and> \<not> collision v target \<longrightarrow>
        fst (moveAttachment c h v file target parents deleteExistFiles pruneFolders)
          = \<lparr>movedAttachments = [\<lparr>newPath = target, oldPath = file\<rparr>], renamedFiles = []\<rparr>
        \<and> files (snd (moveAttachment c h v file target parents deleteExistFiles pruneFolders))
          = files (vaultCopy v file target))
   \<and> (shared h v file target parents \<and> collision v target \<and> \<not> deleteExistFiles
        \<and> folderExists v (parentPath target) \<and> \<not> pathExists v (uniqueSibling h v target)
        \<and> folderExists v (parentPath (uniqueSibling h v target)) \<longrightarrow>
        fst (moveAttachment c h v file target parents deleteExistFiles pruneFolders)
          = \<lparr>movedAttachments = [\<lparr>newPath = uniqueSibling h v target, oldPath = file\<rparr>],
             renamedFiles = [\<lparr>newPath = uniqueSibling h v target, oldPath = target\<rparr>]\<rparr>
        \<and> files (snd (moveAttachment c h v file target parents deleteExistFiles pruneFolders))
          = files (vaultCopy (vaultRename v file (uniqueSibling h v target))
                     (uniqueSibling h v target) file))
   \<and> (shared h v file target parents \<and> collision v target \<and> deleteExistFiles
        \<and> folderExists v (parentPath target) \<longrightarrow>
        moveAttachment c h v file target parents deleteExistFiles pruneFolders
          = (\<lparr>movedAttachments = [\<lparr>newPath = target, oldPath = file\<rparr>], renamedFiles = []\<rparr>, v))"
proof -
  have col: "collision v target \<longleftrightarrow> target \<in> fst ` set (files v)"
    by (simp add: collision_def getFileOrNull_def)
  have sh: "shared h v file target parents \<longleftrightarrow>
            otherLinkedNotes h (createFolderForAttachmentFromPath v target) file parents \<noteq> []"
    by (simp add: shared_def)
  have r1: "target \<notin> fst ` set (files v)
      \<Longrightarrow> otherLinkedNotes h (createFolderForAttachmentFromPath v target) file parents = []
      \<Longrightarrow> fst (moveAttachment c h v file target parents deleteExistFiles pruneFolders)
          = \<lparr>movedAttachments = [\<lparr>newPath = target, oldPath = file\<rparr>], renamedFiles = []\<rparr>
        \<and> files (snd (moveAttachment c h v file target parents deleteExistFiles pruneFolders))
          = files (vaultRename v file target)"
    by (rule row_move[OF assms(1-3,6)])
  have r2: "target \<in> fst ` set (files v) \<Longrightarrow> deleteExistFiles
      \<Longrightarrow> otherLinkedNotes h (createFolderForAttachmentFromPath v target) file parents = []
      \<Longrightarrow> fst (moveAttachment c h v file target parents deleteExistFiles pruneFolders)
          = \<lparr>movedAttachments = [\<lparr>newPath = target, oldPath = file\<rparr>], renamedFiles = []\<rparr>
        \<and> files (snd (moveAttachment c h v file target parents deleteExistFiles pruneFolders))
          = files (trashFile v file)"
    using row_delete[OF assms(1-3), of h v parents pruneFolders] by simp
  have r3: "target \<in> fst ` set (files v) \<Longrightarrow> \<not> deleteExistFiles
      \<Longrightarrow> otherLinkedNotes h (createFolderForAttachmentFromPath v target) file parents = []
      \<Longrightarrow> folderExists v (parentPath target) \<Longrightarrow> \<not> pathExists v (uniqueSibling h v target)
      \<Longrightarrow> fst (moveAttachment c h v file target parents deleteExistFiles pruneFolders)
          = \<lparr>movedAttachments = [\<lparr>newPath = uniqueSibling h v target, oldPath = file\<rparr>],
             renamedFiles = [\<lparr>newPath = uniqueSibling h v target, oldPath = target\<rparr>]\<rparr>
        \<and> files (snd (moveAttachment c h v file target parents deleteExistFiles pruneFolders))
          = files (vaultRename v file (uniqueSibling h v target))"
    using row_rename[OF assms(1-4), of h parents pruneFolders] by simp
  have r4: "target \<notin> fst ` set (files v)
      \<Longrightarrow> otherLinkedNotes h (createFolderForAttachmentFromPath v target) file parents \<noteq> []
      \<Longrightarrow> fst (moveAttachment c h v file target parents deleteExistFiles pruneFolders)
          = \<lparr>movedAttachments = [\<lparr>newPath = target, oldPath = file\<rparr>], renamedFiles = []\<rparr>
        \<and> files (snd (moveAttachment c h v file target parents deleteExistFiles pruneFolders))
          = files (vaultCopy v file target)"
    by (rule row_copy[OF assms(1-3,6)])
  have r5: "target \<in> fst ` set (files v) \<Longrightarrow> \<not> deleteExistFiles
      \<Longrightarrow> otherLinkedNotes h (createFolderForAttachmentFromPath v target) file parents \<noteq> []
      \<Longrightarrow> folderExists v (parentPath target) \<Longrightarrow> \<not> pathExists v (uniqueSibling h v target)
      \<Longrightarrow> folderExists v (parentPath (uniqueSibling h v target))
      \<Longrightarrow> fst (moveAttachment c h v file target parents deleteExistFiles pruneFolders)
          = \<lparr>movedAttachments = [\<lparr>newPath = uniqueSibling h v target, oldPath = file\<rparr>],
             renamedFiles = [\<lparr>newPath = uniqueSibling h v target, oldPath = target\<rparr>]\<rparr>
        \<and> files (snd (moveAttachment c h v file target parents deleteExistFiles pruneFolders))
          = files (vaultCopy (vaultRename v file (uniqueSibling h v target))
                     (uniqueSibling h v target) file)"
    using row_rename_and_copy_back[OF assms(1-5), of h parents pruneFolders] by simp
  have r6: "target \<in> fst ` set (files v) \<Longrightarrow> deleteExistFiles
      \<Longrightarrow> otherLinkedNotes h (createFolderForAttachmentFromPath v target) file parents \<noteq> []
      \<Longrightarrow> folderExists v (parentPath target)
      \<Longrightarrow> moveAttachment c h v file target parents deleteExistFiles pruneFolders
          = (\<lparr>movedAttachments = [\<lparr>newPath = target, oldPath = file\<rparr>], renamedFiles = []\<rparr>, v)"
    using row_keep[OF assms(1-4), of h parents pruneFolders] by simp
  show ?thesis
    unfolding col sh
    apply (rule conjI, use r1 in blast)
    apply (rule conjI, use r2 in blast)
    apply (rule conjI, use r3 in blast)
    apply (rule conjI, use r4 in blast)
    apply (rule conjI, use r5 in blast)
    apply (use r6 in blast)
    done
qed

theorem conflict_table_witness:
  "moveAttachment exampleConfig plainHost collidingVault ''assets/shared.png''
       ''A/attachments/shared.png'' [''A/note.md''] True True
     = (\<lparr>movedAttachments =
           [\<lparr>newPath = ''A/attachments/shared.png'', oldPath = ''assets/shared.png''\<rparr>],
         renamedFiles = []\<rparr>, collidingVault)
   \<and> fst (moveAttachment exampleConfig plainHost exampleVault ''assets/own.png''
       ''A/attachments/own.png'' [''A/note.md''] False True)
     = \<lparr>movedAttachments =
           [\<lparr>newPath = ''A/attachments/own.png'', oldPath = ''assets/own.png''\<rparr>],
        renamedFiles = []\<rparr>
   \<and> files (snd (moveAttachment exampleConfig plainHost exampleVault ''assets/own.png''
       ''A/attachments/own.png'' [''A/note.md''] False True))
     = files (vaultRename exampleVault ''assets/own.png'' ''A/attachments/own.png'')"
proof -
  have a: "\<not> isPathIgnored exampleConfig ''assets/shared.png''" by code_simp
  have b: "isAttachment ''assets/shared.png''" by code_simp
  have c: "''assets/shared.png'' \<noteq> ''A/attachments/shared.png''" by simp
  have d: "''assets/shared.png'' \<in> fst ` set (files collidingVault)" by code_simp
  have e: "\<not> folderExists collidingVault ''assets/shared.png''" by code_simp
  have f: "\<not> folderExists collidingVault ''A/attachments/shared.png''" by code_simp
  have g: "shared plainHost collidingVault ''assets/shared.png'' ''A/attachments/shared.png''
             [''A/note.md'']"
    by code_simp
  have i: "collision collidingVault ''A/attachments/shared.png''" by code_simp
  have j: "folderExists collidingVault (parentPath ''A/attachments/shared.png'')" by code_simp
  note kept = conflict_table[OF a b c d e f, of plainHost "[''A/note.md'']" True True,
      THEN conjunct2, THEN conjunct2, THEN conjunct2, THEN conjunct2, THEN conjunct2]
  have first: "moveAttachment exampleConfig plainHost collidingVault ''assets/shared.png''
       ''A/attachments/shared.png'' [''A/note.md''] True True
     = (\<lparr>movedAttachments =
           [\<lparr>newPath = ''A/attachments/shared.png'', oldPath = ''assets/shared.png''\<rparr>],
         renamedFiles = []\<rparr>, collidingVault)"
    by (rule mp[OF kept]) (intro conjI g i j TrueI)
  have a': "\<not> isPathIgnored exampleConfig ''assets/own.png''" by code_simp
  have b': "isAttachment ''assets/own.png''" by code_simp
  have c': "''assets/own.png'' \<noteq> ''A/attachments/own.png''" by simp
  have d': "''assets/own.png'' \<in> fst ` set (files exampleVault)" by code_simp
  have e': "\<not> folderExists exampleVault ''assets/own.png''" by code_simp
  have f': "\<not> folderExists exampleVault ''A/attachments/own.png''" by code_simp
  have g': "\<not> shared plainHost exampleVault ''assets/own.png'' ''A/attachments/own.png''
             [''A/note.md'']"
    by code_simp
  have i': "\<not> collision exampleVault ''A/attachments/own.png''" by code_simp
  note moved = conflict_table[OF a' b' c' d' e' f', of plainHost "[''A/note.md'']" False True,
      THEN conjunct1]
  have second: "fst (moveAttachment exampleConfig plainHost exampleVault ''assets/own.png''
       ''A/attachments/own.png'' [''A/note.md''] False True)
     = \<lparr>movedAttachments =
           [\<lparr>newPath = ''A/attachments/own.png'', oldPath = ''assets/own.png''\<rparr>],
        renamedFiles = []\<rparr>
   \<and> files (snd (moveAttachment exampleConfig plainHost exampleVault ''assets/own.png''
       ''A/attachments/own.png'' [''A/note.md''] False True))
     = files (vaultRename exampleVault ''assets/own.png'' ''A/attachments/own.png'')"
    by (rule mp[OF moved]) (intro conjI g' i')
  from first second show ?thesis by (intro conjI) (erule conjunct1 conjunct2 | assumption)+
qed

text \<open>
  The claim as it was stated fails in the sixth row: the attachment is shared,
  a file exists at the target, \<open>deleteExistFiles\<close> is set, and the result
  records a change.
\<close>

theorem shared_collision_delete_records_move:
  "shared plainHost collidingVault ''assets/shared.png'' ''A/attachments/shared.png'' [''A/note.md'']
   \<and> collision collidingVault ''A/attachments/shared.png''
   \<and> movedAttachments (fst (moveAttachment exampleConfig plainHost collidingVault
         ''assets/shared.png'' ''A/attachments/shared.png'' [''A/note.md''] True True))
       = [\<lparr>newPath = ''A/attachments/shared.png'', oldPath = ''assets/shared.png''\<rparr>]"
  by code_simp

section \<open>Properties of deleteEmptyFolders\<close>

text \<open>
  The recursion returns: on a vault whose folders are listed paths, a depth
  count one above the deepest folder is enough, whatever the adapter does.
\<close>

lemma fold_max_ge: "(a::nat) \<le> fold max xs a"
  by (induction xs arbitrary: a) (auto intro: order_trans[OF max.cobounded2])

lemma fold_max_mem: "x \<in> set xs \<Longrightarrow> (x::nat) \<le> fold max xs a"
proof (induction xs arbitrary: a)
  case Nil
  then show ?case by simp
next
  case (Cons y ys)
  then show ?case
    using fold_max_ge[of "max y a" ys] by auto
qed

lemma deepest_bound: "f \<in> set (folders v) \<Longrightarrow> length (segments f) \<le> deepest v"
  by (simp add: deepest_def fold_max_mem)

lemma segments_child: "segments (a @ ''/x'') = segments a @ [''x'']"
proof -
  have ne: "splitOn CHR ''/'' b \<noteq> []" for b
    by (induction b) (auto split: list.splits)
  have "splitOn CHR ''/'' (b @ CHR ''/'' # r) = splitOn CHR ''/'' b @ splitOn CHR ''/'' r" for b r
    by (induction b) (auto simp: ne split: list.splits)
  then show ?thesis by (simp add: segments_def)
qed

lemma child_depth:
  assumes "f \<in> set (snd (listSafe v d))" and "listedFolder f"
  shows "f \<in> set (folders v) \<and> length (segments (stripDotSlash f)) = Suc (length (segments d))"
proof -
  from assms(1) have mem: "f \<in> set (folders v)" and par: "parentPath f = parentPath (d @ ''/x'')"
    by (auto simp: listSafe_def childFolders_def split: if_splits)
  have "segments (parentPath f) = segments (parentPath (d @ ''/x''))"
    by (simp only: par)
  then have "butlast (segments f) = segments d"
    by (simp only: segments_parentPath segments_child butlast_snoc)
  then have "length (segments d) = length (segments f) - 1"
    by (simp only: length_butlast[symmetric])
  moreover from assms(2) have "segments f \<noteq> []" by (simp add: listedFolder_def)
  ultimately have "length (segments f) = Suc (length (segments d))"
    by (cases "segments f") simp_all
  moreover from assms(2) have "stripDotSlash f = f"
    by (simp add: listedFolder_def stripDotSlash_def)
  ultimately show ?thesis using mem by simp
qed

lemma removeIfEmpty_folders:
  "removeIfEmpty h v d = Inr v' \<Longrightarrow> set (folders v') \<subseteq> set (folders v)"
  by (auto simp: removeIfEmpty_def rmdir_def trashFolder_def
           split: if_splits rmdirOutcome.splits)

lemma forEachFolder_returns:
  assumes "\<And>w f. f \<in> set cs \<Longrightarrow> set (folders w) \<subseteq> set (folders v0)
             \<Longrightarrow> \<exists>r. g w f = Some r \<and> (\<forall>w'. r = Inr w' \<longrightarrow> set (folders w') \<subseteq> set (folders w))"
    and "set (folders v) \<subseteq> set (folders v0)"
  shows "\<exists>r. forEachFolder g cs v = Some r
              \<and> (\<forall>w'. r = Inr w' \<longrightarrow> set (folders w') \<subseteq> set (folders v))"
  using assms
proof (induction cs arbitrary: v)
  case Nil
  then show ?case by simp
next
  case (Cons f cs)
  from Cons.prems(1)[of f v] Cons.prems(2)
  obtain r where r: "g v f = Some r" "\<forall>w'. r = Inr w' \<longrightarrow> set (folders w') \<subseteq> set (folders v)"
    by auto
  show ?case
  proof (cases r)
    case (Inl e)
    then show ?thesis using r by simp
  next
    case (Inr w)
    with r(2) have sub: "set (folders w) \<subseteq> set (folders v)" by simp
    then have "set (folders w) \<subseteq> set (folders v0)" using Cons.prems(2) by blast
    with Cons.IH[of w] Cons.prems(1)
    obtain r' where "forEachFolder g cs w = Some r'"
      "\<forall>w'. r' = Inr w' \<longrightarrow> set (folders w') \<subseteq> set (folders w)"
      by (metis list.set_intros(2))
    then show ?thesis using r(1) Inr sub by auto
  qed
qed

lemma deleteEmptyFolders_returns_aux:
  assumes "\<forall>f\<in>set (folders v). listedFolder f \<and> length (segments f) \<le> K"
    and "K \<le> m + length (segments (stripDotSlash d))"
  shows "\<exists>r. deleteEmptyFolders (Suc m) c h v d = Some r
              \<and> (\<forall>v'. r = Inr v' \<longrightarrow> set (folders v') \<subseteq> set (folders v))"
  using assms
proof (induction m arbitrary: v d)
  case 0
  show ?case
  proof (cases "isPathIgnored c d")
    case True
    then show ?thesis by simp
  next
    case False
    have "snd (listSafe v (stripDotSlash d)) = []"
    proof (rule ccontr)
      assume "snd (listSafe v (stripDotSlash d)) \<noteq> []"
      then obtain f where f: "f \<in> set (snd (listSafe v (stripDotSlash d)))"
        by (meson last_in_set)
      then have "f \<in> set (folders v)"
        by (auto simp: listSafe_def childFolders_def split: if_splits)
      with "0.prems"(1) have "listedFolder f" "length (segments f) \<le> K" by auto
      with child_depth[OF f] "0.prems"(2) show False
        by (simp add: listedFolder_def stripDotSlash_def)
    qed
    moreover have "\<forall>v'. removeIfEmpty h v (stripDotSlash d) = Inr v'
               \<longrightarrow> set (folders v') \<subseteq> set (folders v)"
      using removeIfEmpty_folders[of h v "stripDotSlash d"] by blast
    ultimately show ?thesis
      using False by (simp add: Let_def)
  qed
next
  case (Suc m)
  show ?case
  proof (cases "isPathIgnored c d")
    case True
    then show ?thesis by simp
  next
    case False
    define cs where "cs = snd (listSafe v (stripDotSlash d))"
    have step: "\<exists>r. deleteEmptyFolders (Suc m) c h w f = Some r
                   \<and> (\<forall>w'. r = Inr w' \<longrightarrow> set (folders w') \<subseteq> set (folders w))"
      if "f \<in> set cs" "set (folders w) \<subseteq> set (folders v)" for w f
    proof -
      from that(1) have fv: "f \<in> set (folders v)"
        by (auto simp: cs_def listSafe_def childFolders_def split: if_splits)
      with Suc.prems(1) have lf: "listedFolder f" by auto
      from child_depth[OF that(1)[unfolded cs_def] lf] Suc.prems(2)
      have "K \<le> m + length (segments (stripDotSlash f))" by simp
      moreover have "\<forall>f\<in>set (folders w). listedFolder f \<and> length (segments f) \<le> K"
        using that(2) Suc.prems(1) by blast
      ultimately show ?thesis by (rule Suc.IH[rotated])
    qed
    have unfold: "deleteEmptyFolders (Suc (Suc m)) c h v d =
        (case forEachFolder (\<lambda>w f. deleteEmptyFolders (Suc m) c h w f) cs v of
           None \<Rightarrow> None
         | Some (Inl e) \<Rightarrow> Some (Inl e)
         | Some (Inr v1) \<Rightarrow> Some (removeIfEmpty h v1 (stripDotSlash d)))"
      by (simp only: deleteEmptyFolders.simps(2)[of "Suc m"] False if_False Let_def cs_def)
    from forEachFolder_returns[of cs v "\<lambda>w f. deleteEmptyFolders (Suc m) c h w f" v, OF step]
    obtain r where r: "forEachFolder (\<lambda>w f. deleteEmptyFolders (Suc m) c h w f) cs v = Some r"
      "\<forall>w'. r = Inr w' \<longrightarrow> set (folders w') \<subseteq> set (folders v)"
      by auto
    show ?thesis
    proof (cases r)
      case (Inl e)
      then show ?thesis unfolding unfold r(1) by simp
    next
      case (Inr w)
      with r(2) have sub: "set (folders w) \<subseteq> set (folders v)" by simp
      have "\<forall>v'. removeIfEmpty h w (stripDotSlash d) = Inr v'
               \<longrightarrow> set (folders v') \<subseteq> set (folders v)"
        using sub removeIfEmpty_folders[of h w "stripDotSlash d"] by blast
      then show ?thesis unfolding unfold r(1) Inr by simp
    qed
  qed
qed

lemma deleteEmptyFolders_returns:
  assumes "\<forall>f\<in>set (folders v). listedFolder f"
  shows "\<exists>r. deleteEmptyFolders (Suc (deepest v)) c h v d = Some r"
proof -
  have "\<forall>f\<in>set (folders v). listedFolder f \<and> length (segments f) \<le> deepest v"
    using assms deepest_bound by blast
  from deleteEmptyFolders_returns_aux[OF this, of "deepest v" d c h]
  show ?thesis by auto
qed

text \<open>
  One level of \<open>deleteEmptyFolders\<close>, and the last step of a level by the
  state of the folder and the outcome of the adapter's \<open>rmdir\<close>.
\<close>

lemma deleteEmptyFolders_step:
  "\<not> isPathIgnored c dirName \<Longrightarrow>
   deleteEmptyFolders (Suc n) c h v dirName =
     (case forEachFolder (\<lambda>w f. deleteEmptyFolders n c h w f)
             (snd (listSafe v (stripDotSlash dirName))) v of
        None \<Rightarrow> None
      | Some (Inl e) \<Rightarrow> Some (Inl e)
      | Some (Inr v1) \<Rightarrow> Some (removeIfEmpty h v1 (stripDotSlash dirName)))"
  by (simp only: deleteEmptyFolders.simps(2) if_False Let_def)

lemma removeIfEmpty_occupied:
  "d \<in> set (folders v) \<Longrightarrow> \<not> (childFiles v d = [] \<and> childFolders v d = [])
     \<Longrightarrow> removeIfEmpty h v d = Inr v"
  by (auto simp: removeIfEmpty_def listSafe_def folderExists_def)

lemma removeIfEmpty_removed:
  "d \<in> set (folders v) \<Longrightarrow> childFiles v d = [] \<Longrightarrow> childFolders v d = []
     \<Longrightarrow> rmdirOutcome h v d = Removed
     \<Longrightarrow> removeIfEmpty h v d = Inr (trashFolder v d)"
  by (simp add: removeIfEmpty_def listSafe_def folderExists_def pathExists_def rmdir_def)

lemma removeIfEmpty_refused:
  "d \<in> set (folders v) \<Longrightarrow> childFiles v d = [] \<Longrightarrow> childFolders v d = []
     \<Longrightarrow> rmdirOutcome h v d = Refused e
     \<Longrightarrow> removeIfEmpty h v d = Inl e"
  by (simp add: removeIfEmpty_def listSafe_def folderExists_def pathExists_def rmdir_def)

lemma removeIfEmpty_lost_race:
  "d \<in> set (folders v) \<Longrightarrow> \<not> isRoot d \<Longrightarrow> d \<notin> fst ` set (files v)
     \<Longrightarrow> childFiles v d = [] \<Longrightarrow> childFolders v d = []
     \<Longrightarrow> rmdirOutcome h v d = LostRace e
     \<Longrightarrow> removeIfEmpty h v d = Inr (trashFolder v d)"
  by (simp add: removeIfEmpty_def listSafe_def folderExists_def pathExists_def rmdir_def
        trashFolder_def)

lemma removeIfEmpty_absent:
  "\<not> pathExists v d \<Longrightarrow> removeIfEmpty h v d = Inr v"
  by (simp add: removeIfEmpty_def listSafe_def pathExists_def)


text \<open>
  C8, as the code has it. An ignored path is left alone, with its subfolders.
  A path at which nothing exists is left alone. Otherwise, once the
  subfolders have been processed, the folder is handed to \<open>rmdir\<close> if and
  only if it has neither child files nor child folders: when \<open>rmdir\<close>
  succeeds the folder is gone; when \<open>rmdir\<close> throws and the folder is gone
  all the same, the error is swallowed; when \<open>rmdir\<close> throws and the folder
  still exists, the error is thrown on. An error thrown for a subfolder is
  thrown on as well.
\<close>

theorem deleteEmptyFolders_outcomes:
  "(isPathIgnored c dirName \<longrightarrow> deleteEmptyFolders (Suc n) c h v dirName = Some (Inr v))
   \<and> (\<not> isPathIgnored c dirName \<and> \<not> pathExists v (stripDotSlash dirName) \<longrightarrow>
        deleteEmptyFolders (Suc n) c h v dirName = Some (Inr v))
   \<and> (\<not> isPathIgnored c dirName
        \<and> forEachFolder (\<lambda>w f. deleteEmptyFolders n c h w f)
              (snd (listSafe v (stripDotSlash dirName))) v = Some (Inr v1)
        \<and> stripDotSlash dirName \<in> set (folders v1) \<and> \<not> isRoot (stripDotSlash dirName)
        \<and> stripDotSlash dirName \<notin> fst ` set (files v1) \<longrightarrow>
        (\<not> (childFiles v1 (stripDotSlash dirName) = []
              \<and> childFolders v1 (stripDotSlash dirName) = []) \<longrightarrow>
           deleteEmptyFolders (Suc n) c h v dirName = Some (Inr v1))
        \<and> (childFiles v1 (stripDotSlash dirName) = []
            \<and> childFolders v1 (stripDotSlash dirName) = [] \<longrightarrow>
             (rmdirOutcome h v1 (stripDotSlash dirName) = Removed \<longrightarrow>
                deleteEmptyFolders (Suc n) c h v dirName
                  = Some (Inr (trashFolder v1 (stripDotSlash dirName))))
             \<and> (\<forall>e. rmdirOutcome h v1 (stripDotSlash dirName) = Refused e \<longrightarrow>
                deleteEmptyFolders (Suc n) c h v dirName = Some (Inl e))
             \<and> (\<forall>e. rmdirOutcome h v1 (stripDotSlash dirName) = LostRace e \<longrightarrow>
                deleteEmptyFolders (Suc n) c h v dirName
                  = Some (Inr (trashFolder v1 (stripDotSlash dirName))))))
   \<and> (\<forall>e. \<not> isPathIgnored c dirName
        \<and> forEachFolder (\<lambda>w f. deleteEmptyFolders n c h w f)
              (snd (listSafe v (stripDotSlash dirName))) v = Some (Inl e) \<longrightarrow>
        deleteEmptyFolders (Suc n) c h v dirName = Some (Inl e))"
proof (intro conjI impI allI)
  show "deleteEmptyFolders (Suc n) c h v dirName = Some (Inr v)" if "isPathIgnored c dirName"
    using that by simp
next
  assume a: "\<not> isPathIgnored c dirName \<and> \<not> pathExists v (stripDotSlash dirName)"
  then have "snd (listSafe v (stripDotSlash dirName)) = []"
    by (simp add: listSafe_def pathExists_def)
  then show "deleteEmptyFolders (Suc n) c h v dirName = Some (Inr v)"
    using a by (simp add: deleteEmptyFolders_step removeIfEmpty_absent del: deleteEmptyFolders.simps)
next
  fix e
  assume "\<not> isPathIgnored c dirName
        \<and> forEachFolder (\<lambda>w f. deleteEmptyFolders n c h w f)
              (snd (listSafe v (stripDotSlash dirName))) v = Some (Inl e)"
  then show "deleteEmptyFolders (Suc n) c h v dirName = Some (Inl e)"
    by (simp add: deleteEmptyFolders_step del: deleteEmptyFolders.simps)
next
  assume a: "\<not> isPathIgnored c dirName
        \<and> forEachFolder (\<lambda>w f. deleteEmptyFolders n c h w f)
              (snd (listSafe v (stripDotSlash dirName))) v = Some (Inr v1)
        \<and> stripDotSlash dirName \<in> set (folders v1) \<and> \<not> isRoot (stripDotSlash dirName)
        \<and> stripDotSlash dirName \<notin> fst ` set (files v1)"
  then have step: "deleteEmptyFolders (Suc n) c h v dirName
                     = Some (removeIfEmpty h v1 (stripDotSlash dirName))"
    by (simp add: deleteEmptyFolders_step del: deleteEmptyFolders.simps)
  from a have mem: "stripDotSlash dirName \<in> set (folders v1)"
    and nr: "\<not> isRoot (stripDotSlash dirName)"
    and nf: "stripDotSlash dirName \<notin> fst ` set (files v1)"
    by simp_all
  {
    assume occ: "\<not> (childFiles v1 (stripDotSlash dirName) = []
              \<and> childFolders v1 (stripDotSlash dirName) = [])"
    show "deleteEmptyFolders (Suc n) c h v dirName = Some (Inr v1)"
      unfolding step using removeIfEmpty_occupied[OF mem occ] by simp
  next
    assume b: "childFiles v1 (stripDotSlash dirName) = []
            \<and> childFolders v1 (stripDotSlash dirName) = []"
    then have cf: "childFiles v1 (stripDotSlash dirName) = []"
      and cd: "childFolders v1 (stripDotSlash dirName) = []"
      by simp_all
    {
      assume r: "rmdirOutcome h v1 (stripDotSlash dirName) = Removed"
      show "deleteEmptyFolders (Suc n) c h v dirName
                  = Some (Inr (trashFolder v1 (stripDotSlash dirName)))"
        unfolding step using removeIfEmpty_removed[OF mem cf cd r] by simp
    next
      fix e assume r: "rmdirOutcome h v1 (stripDotSlash dirName) = Refused e"
      show "deleteEmptyFolders (Suc n) c h v dirName = Some (Inl e)"
        unfolding step using removeIfEmpty_refused[OF mem cf cd r] by simp
    next
      fix e assume r: "rmdirOutcome h v1 (stripDotSlash dirName) = LostRace e"
      show "deleteEmptyFolders (Suc n) c h v dirName
                  = Some (Inr (trashFolder v1 (stripDotSlash dirName)))"
        unfolding step using removeIfEmpty_lost_race[OF mem nr nf cf cd r] by simp
    }
  }
qed

theorem deleteEmptyFolders_outcomes_witness:
  "deleteEmptyFolders 2 exampleConfig plainHost tidyVault ''drafts''
     = Some (Inr (trashFolder tidyVault ''drafts''))
   \<and> deleteEmptyFolders 2 exampleConfig racingHost tidyVault ''./drafts''
     = Some (Inr (trashFolder tidyVault ''drafts''))
   \<and> deleteEmptyFolders 2 exampleConfig plainHost tidyVault ''templates/snippets''
     = Some (Inr tidyVault)"
proof -
  have two: "(2::nat) = Suc 1" by simp
  have a: "\<not> isPathIgnored exampleConfig ''drafts''
        \<and> forEachFolder (\<lambda>w f. deleteEmptyFolders 1 exampleConfig plainHost w f)
              (snd (listSafe tidyVault (stripDotSlash ''drafts''))) tidyVault = Some (Inr tidyVault)
        \<and> stripDotSlash ''drafts'' \<in> set (folders tidyVault)
        \<and> \<not> isRoot (stripDotSlash ''drafts'')
        \<and> stripDotSlash ''drafts'' \<notin> fst ` set (files tidyVault)"
    by code_simp
  have b: "childFiles tidyVault (stripDotSlash ''drafts'') = []
        \<and> childFolders tidyVault (stripDotSlash ''drafts'') = []"
    by code_simp
  have c: "rmdirOutcome plainHost tidyVault (stripDotSlash ''drafts'') = Removed"
    by code_simp
  have s: "stripDotSlash ''drafts'' = ''drafts''" by code_simp
  note row = deleteEmptyFolders_outcomes[of exampleConfig "''drafts''" 1 plainHost tidyVault tidyVault,
      THEN conjunct2, THEN conjunct2, THEN conjunct1, THEN mp, OF a,
      THEN conjunct2, THEN mp, OF b, THEN conjunct1, THEN mp, OF c]
  have first: "deleteEmptyFolders 2 exampleConfig plainHost tidyVault ''drafts''
     = Some (Inr (trashFolder tidyVault ''drafts''))"
    using row unfolding s two .
  have a': "\<not> isPathIgnored exampleConfig ''./drafts''
        \<and> forEachFolder (\<lambda>w f. deleteEmptyFolders 1 exampleConfig racingHost w f)
              (snd (listSafe tidyVault (stripDotSlash ''./drafts''))) tidyVault = Some (Inr tidyVault)
        \<and> stripDotSlash ''./drafts'' \<in> set (folders tidyVault)
        \<and> \<not> isRoot (stripDotSlash ''./drafts'')
        \<and> stripDotSlash ''./drafts'' \<notin> fst ` set (files tidyVault)"
    by code_simp
  have b': "childFiles tidyVault (stripDotSlash ''./drafts'') = []
        \<and> childFolders tidyVault (stripDotSlash ''./drafts'') = []"
    by code_simp
  have c': "rmdirOutcome racingHost tidyVault (stripDotSlash ''./drafts'')
              = LostRace (HostError ''ENOENT'')"
    by code_simp
  have s': "stripDotSlash ''./drafts'' = ''drafts''" by code_simp
  note row' = deleteEmptyFolders_outcomes[of exampleConfig "''./drafts''" 1 racingHost tidyVault tidyVault,
      THEN conjunct2, THEN conjunct2, THEN conjunct1, THEN mp, OF a',
      THEN conjunct2, THEN mp, OF b', THEN conjunct2, THEN conjunct2, THEN spec, THEN mp, OF c']
  have second: "deleteEmptyFolders 2 exampleConfig racingHost tidyVault ''./drafts''
     = Some (Inr (trashFolder tidyVault ''drafts''))"
    using row' unfolding s' two .
  have i: "isPathIgnored exampleConfig ''templates/snippets''" by code_simp
  note row'' = deleteEmptyFolders_outcomes[of exampleConfig "''templates/snippets''" 1 plainHost
      tidyVault tidyVault, THEN conjunct1, THEN mp, OF i]
  have third: "deleteEmptyFolders 2 exampleConfig plainHost tidyVault ''templates/snippets''
     = Some (Inr tidyVault)"
    using row'' unfolding two .
  from first second third show ?thesis by (intro conjI)
qed

text \<open>
  The claim as it was stated fails on the error: the adapter refuses to remove
  the empty folder \<open>drafts\<close>, the folder still exists, and the call ends with
  the adapter's error.
\<close>

theorem removal_error_on_existing_folder_is_thrown:
  "deleteEmptyFolders 2 exampleConfig refusingHost tidyVault ''drafts''
     = Some (Inl (HostError ''ENOTEMPTY''))
   \<and> folderExists tidyVault ''drafts''"
  by code_simp

section \<open>Properties of the rename handler\<close>

text \<open>
  C3, as the code has it. A rename notification that arrives while the rename
  map is not empty is dropped: \<open>handleRename\<close> returns at once, and the
  map, the vault and the console are what they were. No nested cascade starts,
  and the notification is not added to the map.
\<close>

theorem rename_during_cascade_is_ignored:
  assumes "renameMap s \<noteq> []"
  shows "handleRename h s file oldP = (None, s)"
  using assms by (simp add: handleRename_def)

theorem rename_during_cascade_is_ignored_witness:
  "handleRename exampleRenameHost busyState (TFile ''B/note/img.png'') ''A/note/img.png''
     = (None, busyState)"
  by (rule rename_during_cascade_is_ignored) (simp add: busyState_def)

text \<open>
  The claim as it was stated fails: while the cascade for \<open>A/note.md\<close> is
  running, the user's rename of \<open>B/other.md\<close> to \<open>C/other.md\<close> is
  notified; afterwards the map has no entry for \<open>B/other.md\<close>.
\<close>

theorem rename_during_cascade_is_not_folded_in:
  "mapGet (renameMap (snd (handleRename exampleRenameHost busyState (TFile ''C/other.md'')
      ''B/other.md''))) ''B/other.md'' = None
   \<and> snd (handleRename exampleRenameHost busyState (TFile ''C/other.md'') ''B/other.md'')
       = busyState"
  by code_simp

text \<open>
  The rewrite of one canvas node, and what \<open>patchFile\<close> leaves at the path.
\<close>

lemma rewriteNode_frame:
  "nodeType (rewriteNode m node) = nodeType node \<and> nodeRest (rewriteNode m node) = nodeRest node"
  by (simp add: rewriteNode_def split: option.splits)

lemma rewriteNode_hit:
  "nodeType node = ''file'' \<Longrightarrow> nodeFile node = Some f \<Longrightarrow> mapGet m f = Some p \<Longrightarrow> p \<noteq> []
     \<Longrightarrow> rewriteNode m node = node\<lparr>nodeFile := Some p\<rparr>"
  by (simp add: rewriteNode_def)

lemma rewriteNode_miss:
  "nodeType node \<noteq> ''file'' \<or> nodeFile node = None
     \<or> (\<exists>f. nodeFile node = Some f \<and> mapGet m f = None)
     \<Longrightarrow> rewriteNode m node = node"
  by (auto simp: rewriteNode_def split: option.splits)

lemma map_of_writeFile:
  "p \<in> fst ` set fs \<Longrightarrow>
   map_of (map (\<lambda>(q, c'). if q = p then (q, c) else (q, c')) fs) p = Some c"
  by (induction fs) (auto split: prod.splits)

lemma readFile_patchFile:
  "readFile (vaultOf s) p = Some content \<Longrightarrow> readFile (vaultOf (patchFile s p f)) p = Some (f content)"
proof -
  assume a: "readFile (vaultOf s) p = Some content"
  then have "p \<in> fst ` set (files (vaultOf s))"
    by (auto simp: readFile_def dest: map_of_SomeD intro: rev_image_eqI)
  then show ?thesis using a
    by (simp add: patchFile_def writeFile_def readFile_def map_of_writeFile)
qed

text \<open>
  Rewriting links changes the content of files, never which files exist; the
  move itself, when nothing is in its way.
\<close>

lemma folderExists_created:
  assumes "dirname p \<notin> fst ` set (files v)"
  shows "folderExists (createFolderSafe v (dirname p)) (dirname p)"
proof (cases "pathExists v (dirname p)")
  case True
  then show ?thesis using assms by (simp add: createFolderSafe_def pathExists_def)
next
  case False
  then have nr: "\<not> isRoot (dirname p)" by (simp add: pathExists_def folderExists_def)
  then have ne: "butlast (segments p) \<noteq> []"
    using isRoot_dirname[of p] by blast
  then have eq: "dirname p = parentPath p" by (rule segments_dirname_nonroot)
  with nr have "\<not> isRoot (parentPath p)" by simp
  then have "parentPath p \<in> set (rev (folderChain (parentPath p)))"
    by (subst last_folderChain) simp_all
  then have "dirname p \<in> set (folderChain (dirname p))" by (simp add: eq)
  then show ?thesis using False
    by (auto simp: createFolderSafe_def folderExists_def)
qed

lemma keys_writeFile [simp]: "map fst (files (writeFile v p c)) = map fst (files v)"
  by (simp add: writeFile_def) (induction "files v", auto)

lemma keys_patchFile [simp]:
  "map fst (files (vaultOf (patchFile s p f))) = map fst (files (vaultOf s))"
  by (simp add: patchFile_def split: option.splits)

lemma renameMap_patchFile [simp]: "renameMap (patchFile s p f) = renameMap s"
  by (simp add: patchFile_def split: option.splits)

lemma keys_updateBacklinks [simp]:
  "map fst (files (vaultOf (updateBacklinks h file ps s))) = map fst (files (vaultOf s))"
  by (induction ps arbitrary: s) (auto split: option.splits)

lemma keys_rewriteOwnContent:
  "map fst (files (vaultOf (snd (rewriteOwnContent h s file oldP)))) = map fst (files (vaultOf s))"
  by (simp add: rewriteOwnContent_def split: option.splits)

lemma readFile_cong: "files v = files w \<Longrightarrow> readFile v p = readFile w p"
  by (simp add: readFile_def)

lemma mapGet_mapDelete: "mapGet (mapDelete m k) k = None"
  by (induction m) (auto simp: mapGet_def mapDelete_def)

lemma moveOldFile_moves:
  assumes "\<not> pathExists (vaultOf s2) newP"
  shows "moveOldFile s2 oldP newP =
           (None, s2\<lparr>renameMap := mapDelete (renameMap s2) oldP,
                     vaultOf := removeEmptyFolderHierarchy
                       (vaultRename (createFolderSafe (vaultOf s2) (dirname newP)) oldP newP)
                       (parentPath oldP)\<rparr>)"
proof -
  from assms have "\<not> pathExists (createFolderSafe (vaultOf s2) (dirname newP)) newP"
    by (intro pathExists_createFolderSafe_dirname) (auto simp: pathExists_def)
  then show ?thesis by (simp add: moveOldFile_def renameFile_def Let_def)
qed

text \<open>
  C5, as the code has it. When no file exists at the old path nor at the new
  one, \<open>processRename\<close> returns with the state as it was: the entry is
  skipped and nothing is written to the console. When a file exists at the old
  path, the links are rewritten without an exception and nothing exists at the
  new path, the folder of the new path exists once \<open>createFolderSafe\<close> has
  run, the file is moved (its content is found at the new path and nothing at
  the old one), the entry is removed from the rename map, and
  \<open>removeEmptyFolderHierarchy\<close> prunes upwards from the old parent folder.
\<close>

theorem processRename_skips_or_moves:
  "(getFileByPath (vaultOf s) oldP = None \<and> getFileByPath (vaultOf s) newP = None \<longrightarrow>
      processRename h s oldP newP = (None, s))
   \<and> (oldP \<in> fst ` set (files (vaultOf s))
       \<and> rewriteOwnContent h
            (updateBacklinks h oldP (map fst (getBacklinksForFile h (vaultOf s) oldP)) s)
            oldP oldP = (None, s2)
       \<and> \<not> pathExists (vaultOf s2) newP
       \<and> dirname newP \<notin> fst ` set (files (vaultOf s2)) \<longrightarrow>
      processRename h s oldP newP =
        (None, s2\<lparr>renameMap := mapDelete (renameMap s2) oldP,
                  vaultOf := removeEmptyFolderHierarchy
                    (vaultRename (createFolderSafe (vaultOf s2) (dirname newP)) oldP newP)
                    (parentPath oldP)\<rparr>)
      \<and> folderExists (createFolderSafe (vaultOf s2) (dirname newP)) (dirname newP)
      \<and> readFile (vaultOf (snd (processRename h s oldP newP))) newP = readFile (vaultOf s2) oldP
      \<and> readFile (vaultOf (snd (processRename h s oldP newP))) oldP = None
      \<and> mapGet (renameMap (snd (processRename h s oldP newP))) oldP = None)"
proof (intro conjI impI)
  assume "getFileByPath (vaultOf s) oldP = None \<and> getFileByPath (vaultOf s) newP = None"
  then show "processRename h s oldP newP = (None, s)"
    by (simp add: processRename_def)
next
  assume a: "oldP \<in> fst ` set (files (vaultOf s))
       \<and> rewriteOwnContent h
            (updateBacklinks h oldP (map fst (getBacklinksForFile h (vaultOf s) oldP)) s)
            oldP oldP = (None, s2)
       \<and> \<not> pathExists (vaultOf s2) newP
       \<and> dirname newP \<notin> fst ` set (files (vaultOf s2))"
  then have old: "getFileByPath (vaultOf s) oldP = Some oldP"
    by (simp add: getFileByPath_def)
  from a have free: "\<not> pathExists (vaultOf s2) newP" by simp
  have run: "processRename h s oldP newP = moveOldFile s2 oldP newP"
    using a old by (simp add: processRename_def Let_def)
  show res: "processRename h s oldP newP =
        (None, s2\<lparr>renameMap := mapDelete (renameMap s2) oldP,
                  vaultOf := removeEmptyFolderHierarchy
                    (vaultRename (createFolderSafe (vaultOf s2) (dirname newP)) oldP newP)
                    (parentPath oldP)\<rparr>)"
    unfolding run by (rule moveOldFile_moves[OF free])
  show "folderExists (createFolderSafe (vaultOf s2) (dirname newP)) (dirname newP)"
    using a by (intro folderExists_created) simp
  have fl: "files (vaultOf (snd (processRename h s oldP newP)))
              = files (vaultRename (vaultOf s2) oldP newP)"
    unfolding res by (simp add: vaultRename_def)
  have nin: "newP \<notin> fst ` set (files (vaultOf s2))"
    using free by (auto simp: pathExists_def)
  have "map fst (files (vaultOf s2)) = map fst (files (vaultOf s))"
    using keys_rewriteOwnContent[of h
        "updateBacklinks h oldP (map fst (getBacklinksForFile h (vaultOf s) oldP)) s" oldP oldP] a
    by simp
  then have "set (map fst (files (vaultOf s2))) = set (map fst (files (vaultOf s)))"
    by (rule arg_cong)
  then have "oldP \<in> fst ` set (files (vaultOf s2))" using a by simp
  with nin have ne: "oldP \<noteq> newP" by blast
  show "readFile (vaultOf (snd (processRename h s oldP newP))) newP = readFile (vaultOf s2) oldP"
    using readFile_vaultRename[OF nin ne] readFile_cong[OF fl] by simp
  show "readFile (vaultOf (snd (processRename h s oldP newP))) oldP = None"
    using readFile_vaultRename[OF nin ne] readFile_cong[OF fl] by simp
  show "mapGet (renameMap (snd (processRename h s oldP newP))) oldP = None"
    unfolding res by (simp add: mapGet_mapDelete)
qed

theorem processRename_skips_or_moves_witness:
  "processRename exampleRenameHost busyState ''A/gone.png'' ''B/gone.png'' = (None, busyState)
   \<and> processRename exampleRenameHost busyState ''A/note/img.png'' ''B/note/img.png'' =
        (None, busyState\<lparr>renameMap := mapDelete (renameMap busyState) ''A/note/img.png'',
                  vaultOf := removeEmptyFolderHierarchy
                    (vaultRename (createFolderSafe (vaultOf busyState) (dirname ''B/note/img.png''))
                       ''A/note/img.png'' ''B/note/img.png'')
                    (parentPath ''A/note/img.png'')\<rparr>)
   \<and> readFile (vaultOf (snd (processRename exampleRenameHost busyState
          ''A/note/img.png'' ''B/note/img.png''))) ''B/note/img.png''
       = readFile (vaultOf busyState) ''A/note/img.png''"
proof -
  have absent: "getFileByPath (vaultOf busyState) ''A/gone.png'' = None
                \<and> getFileByPath (vaultOf busyState) ''B/gone.png'' = None"
    by code_simp
  have skipped: "processRename exampleRenameHost busyState ''A/gone.png'' ''B/gone.png''
                   = (None, busyState)"
    using processRename_skips_or_moves[of busyState "''A/gone.png''" "''B/gone.png''"
        exampleRenameHost busyState, THEN conjunct1, THEN mp, OF absent] .
  have present: "''A/note/img.png'' \<in> fst ` set (files (vaultOf busyState))
       \<and> rewriteOwnContent exampleRenameHost
            (updateBacklinks exampleRenameHost ''A/note/img.png''
               (map fst (getBacklinksForFile exampleRenameHost (vaultOf busyState) ''A/note/img.png''))
               busyState)
            ''A/note/img.png'' ''A/note/img.png'' = (None, busyState)
       \<and> \<not> pathExists (vaultOf busyState) ''B/note/img.png''
       \<and> dirname ''B/note/img.png'' \<notin> fst ` set (files (vaultOf busyState))"
    by code_simp
  note moved = processRename_skips_or_moves[of busyState "''A/note/img.png''" "''B/note/img.png''"
        exampleRenameHost busyState, THEN conjunct2, THEN mp, OF present]
  from skipped moved[THEN conjunct1] moved[THEN conjunct2, THEN conjunct2, THEN conjunct1]
  show ?thesis by (intro conjI)
qed

text \<open>
  The claim as it was stated fails on the warning: no file exists at
  \<open>A/gone.png\<close> nor at \<open>B/gone.png\<close>, and the console holds after the
  call what it held before.
\<close>

theorem missing_file_is_skipped_silently:
  "getFileByPath (vaultOf busyState) ''A/gone.png'' = None
   \<and> getFileByPath (vaultOf busyState) ''B/gone.png'' = None
   \<and> console (snd (processRename exampleRenameHost busyState ''A/gone.png'' ''B/gone.png''))
       = console busyState"
  by code_simp





















lemma split_at_last_dot:
  assumes "CHR ''.'' \<in> set n"
  shows "n = rev (tl (dropWhile (\<lambda>c. c \<noteq> CHR ''.'') (rev n))) @ ''.''
               @ rev (takeWhile (\<lambda>c. c \<noteq> CHR ''.'') (rev n))"
proof -
  define P where "P = (\<lambda>c. c \<noteq> CHR ''.'')"
  have "dropWhile P (rev n) \<noteq> []" using assms by (auto simp: P_def dropWhile_eq_Nil_conv)
  moreover have "hd (dropWhile P (rev n)) = CHR ''.''"
    using calculation hd_dropWhile[of P "rev n"] by (simp add: P_def)
  ultimately have "dropWhile P (rev n) = CHR ''.'' # tl (dropWhile P (rev n))"
    by (cases "dropWhile P (rev n)") auto
  then have "rev n = takeWhile P (rev n) @ CHR ''.'' # tl (dropWhile P (rev n))"
    using takeWhile_dropWhile_id[of P "rev n"] by simp
  then have "rev (rev n) = rev (takeWhile P (rev n) @ CHR ''.'' # tl (dropWhile P (rev n)))"
    by (rule arg_cong)
  then show ?thesis by (simp add: P_def)
qed

lemma name_parts:
  "(if extension c = [] then basename c else basename c @ ''.'' @ extension c) = fileName c
   \<or> (CHR ''.'' \<in> set (fileName c) \<and> extension c = [])"
proof (cases "CHR ''.'' \<in> set (fileName c)")
  case False
  then show ?thesis by (simp add: extension_def basename_def)
next
  case True
  from split_at_last_dot[OF True] have "fileName c = basename c @ ''.'' @ extension c"
    using True by (simp add: extension_def basename_def Let_def)
  then show ?thesis by auto
qed








text \<open>
  Which keys the rename map holds: after \<open>fillRenameMap\<close>, the old path
  and paths of files; after \<open>processRename\<close>, no new ones, and not the key
  processed when its file existed and nothing was thrown. No other file
  disappears on the way.
\<close>

lemma keys_mapSet: "fst ` set (mapSet m k x) = insert k (fst ` set m)"
proof (cases "k \<in> fst ` set m")
  case True
  have "fst (case p of (k', x') \<Rightarrow> if k' = k then (k', x) else (k', x')) = fst p"
    for p :: "string \<times> string"
    by (cases p) simp
  then have "fst ` set (map (\<lambda>(k', x'). if k' = k then (k', x) else (k', x')) m) = fst ` set m"
    by (simp add: image_image)
  with True show ?thesis by (simp add: mapSet_def insert_absorb)
next
  case False
  then show ?thesis by (simp add: mapSet_def)
qed

lemma keys_mapDelete: "fst ` set (mapDelete m k) = fst ` set m - {k}"
  by (induction m) (auto simp: mapDelete_def)

lemma keys_fillChildren:
  "fst ` set (fillChildren h v old new cs m) \<subseteq> fst ` set m \<union> set cs"
proof (induction cs arbitrary: m)
  case Nil
  then show ?case by simp
next
  case (Cons c cs)
  define m' where "m' = mapSet m c (vaultGetAvailablePath h v
          (join [join [new, dirname (relative old c)], basename c]) (extension c))"
  have step: "fillChildren h v old new (c # cs) m = fillChildren h v old new cs m
              \<or> fillChildren h v old new (c # cs) m = fillChildren h v old new cs m'"
    by (simp add: Let_def m'_def)
  have keys: "fst ` set m' = insert c (fst ` set m)" by (simp add: m'_def keys_mapSet)
  from step show ?case
  proof
    assume e: "fillChildren h v old new (c # cs) m = fillChildren h v old new cs m"
    show ?thesis unfolding e using Cons.IH[of m] by auto
  next
    assume e: "fillChildren h v old new (c # cs) m = fillChildren h v old new cs m'"
    show ?thesis unfolding e using Cons.IH[of m'] keys by auto
  qed
qed

lemma keys_fillRenameMap:
  "fst ` set (renameMap (fillRenameMap h s file oldP))
     \<subseteq> insert oldP (fst ` set (renameMap s) \<union> fst ` set (files (vaultOf s)))"
proof -
  define seeded where "seeded = mapSet (renameMap s) oldP file"
  define old where "old = getAttachmentFolderPath h (vaultOf s) oldP"
  define new where "new = getAttachmentFolderPath h (vaultOf s) file"
  have kids: "set (recurseChildren (vaultOf s) old) \<subseteq> fst ` set (files (vaultOf s))"
    by (auto simp: recurseChildren_def)
  have seed: "fst ` set seeded = insert oldP (fst ` set (renameMap s))"
    by (simp add: seeded_def keys_mapSet)
  have shape: "renameMap (fillRenameMap h s file oldP) = seeded
      \<or> renameMap (fillRenameMap h s file oldP)
           = fillChildren h (vaultOf s) old new (recurseChildren (vaultOf s) old) seeded"
    by (simp add: fillRenameMap_def Let_def old_def new_def seeded_def)
  note kc = keys_fillChildren[of h "vaultOf s" old new "recurseChildren (vaultOf s) old" seeded]
  from shape show ?thesis
  proof
    assume e: "renameMap (fillRenameMap h s file oldP) = seeded"
    show ?thesis unfolding e seed by auto
  next
    assume e: "renameMap (fillRenameMap h s file oldP)
           = fillChildren h (vaultOf s) old new (recurseChildren (vaultOf s) old) seeded"
    show ?thesis unfolding e using kc kids seed by auto
  qed
qed

lemma vaultOf_fillRenameMap [simp]: "vaultOf (fillRenameMap h s file oldP) = vaultOf s"
  by (simp add: fillRenameMap_def Let_def)

lemma renameMap_updateBacklinks [simp]:
  "renameMap (updateBacklinks h file ps s) = renameMap s"
  by (induction ps arbitrary: s) (auto split: option.splits)

lemma renameMap_rewriteOwnContent [simp]:
  "renameMap (snd (rewriteOwnContent h s file oldP)) = renameMap s"
  by (simp add: rewriteOwnContent_def split: option.splits)

text \<open>
  What \<open>processRename\<close> does with a canvas that parses, found only at the
  new path or still at the old one; rewriting file contents leaves the folders
  alone, and a move to a free path carries the content along.
\<close>

lemma folders_patchFile: "folders (vaultOf (patchFile s p f)) = folders (vaultOf s)"
  by (simp add: patchFile_def writeFile_def split: option.splits)

lemma folders_updateBacklinks:
  "folders (vaultOf (updateBacklinks h file ps s)) = folders (vaultOf s)"
  by (induction ps arbitrary: s) (auto simp: folders_patchFile split: option.splits)

lemma pathExists_keys:
  "map fst (files v) = map fst (files w) \<Longrightarrow> folders v = folders w \<Longrightarrow> pathExists v p = pathExists w p"
  by (simp add: pathExists_def folderExists_def)

lemma processRename_canvas_at_new_path:
  assumes "getFileByPath (vaultOf s) oldP = None" "getFileByPath (vaultOf s) newP = Some newP"
    and "toLowerCase (extension newP) = ''canvas''"
    and "readFile (vaultOf (updateBacklinks h newP (map fst (getBacklinksForFile h (vaultOf s) newP)) s)) newP
           = Some content"
    and "parseCanvas h content = Some canvas"
  shows "processRename h s oldP newP =
           (None, patchFile (updateBacklinks h newP (map fst (getBacklinksForFile h (vaultOf s) newP)) s)
                    newP (\<lambda>_. toJson h (rewriteCanvas (renameMap s) canvas)))"
  using assms by (simp add: processRename_def rewriteOwnContent_def Let_def)

lemma processRename_canvas_at_old_path:
  assumes "getFileByPath (vaultOf s) oldP = Some oldP"
    and "toLowerCase (extension oldP) = ''canvas''"
    and "readFile (vaultOf (updateBacklinks h oldP (map fst (getBacklinksForFile h (vaultOf s) oldP)) s)) oldP
           = Some content"
    and "parseCanvas h content = Some canvas"
  shows "processRename h s oldP newP =
           moveOldFile (patchFile (updateBacklinks h oldP (map fst (getBacklinksForFile h (vaultOf s) oldP)) s)
                    oldP (\<lambda>_. toJson h (rewriteCanvas (renameMap s) canvas))) oldP newP"
  using assms by (simp add: processRename_def rewriteOwnContent_def Let_def)

lemma readFile_moveOldFile:
  assumes "\<not> pathExists (vaultOf s2) newP" and "oldP \<noteq> newP"
  shows "fst (moveOldFile s2 oldP newP) = None
       \<and> readFile (vaultOf (snd (moveOldFile s2 oldP newP))) newP = readFile (vaultOf s2) oldP
       \<and> readFile (vaultOf (snd (moveOldFile s2 oldP newP))) oldP = None"
proof -
  from assms have new: "newP \<notin> fst ` set (files (vaultOf s2))" by (simp add: pathExists_def)
  have "readFile (vaultRename (createFolderSafe (vaultOf s2) (dirname newP)) oldP newP) newP
          = readFile (createFolderSafe (vaultOf s2) (dirname newP)) oldP
      \<and> readFile (vaultRename (createFolderSafe (vaultOf s2) (dirname newP)) oldP newP) oldP = None"
    using readFile_vaultRename[of newP "createFolderSafe (vaultOf s2) (dirname newP)" oldP] new assms(2)
    by simp
  then show ?thesis
    by (simp add: moveOldFile_moves[OF assms(1)] readFile_def)
qed

text \<open>
  C7. Let the file \<open>processRename\<close> works on, the one at the old path or
  else the one at the new path, be a canvas whose content parses (read once
  the backlinks are patched), and let the rename map hold paths (none of them
  the empty string, which JavaScript takes for a missing entry). When the
  canvas is found at the new path only, or is at the old path and nothing
  exists at the new one, \<open>processRename\<close> throws nothing and the content
  at the new path afterwards is the rewritten canvas, printed. The rewrite
  keeps the number and order of the nodes, every node's type and other fields,
  and the other fields of the canvas; a node of type \<open>file\<close> whose file is
  a key of the map gets the mapped path; every other node is unchanged.
\<close>

theorem processRename_rewrites_canvas:
  assumes vals: "\<forall>(k, p) \<in> set (renameMap s). p \<noteq> []"
    and found: "file \<in> fst ` set (files (vaultOf s))"
               "file = (if oldP \<in> fst ` set (files (vaultOf s)) then oldP else newP)"
    and canvas: "toLowerCase (extension file) = ''canvas''"
    and content: "readFile (vaultOf (updateBacklinks h file
                     (map fst (getBacklinksForFile h (vaultOf s) file)) s)) file = Some content"
    and parsed: "parseCanvas h content = Some canvas"
  shows "(oldP \<notin> fst ` set (files (vaultOf s)) \<or> \<not> pathExists (vaultOf s) newP \<longrightarrow>
            fst (processRename h s oldP newP) = None
          \<and> readFile (vaultOf (snd (processRename h s oldP newP))) newP
              = Some (toJson h (rewriteCanvas (renameMap s) canvas)))
       \<and> canvasRest (rewriteCanvas (renameMap s) canvas) = canvasRest canvas
       \<and> length (nodes (rewriteCanvas (renameMap s) canvas)) = length (nodes canvas)
       \<and> (\<forall>i < length (nodes canvas).
            nodeType (nodes (rewriteCanvas (renameMap s) canvas) ! i) = nodeType (nodes canvas ! i)
          \<and> nodeRest (nodes (rewriteCanvas (renameMap s) canvas) ! i) = nodeRest (nodes canvas ! i)
          \<and> (\<forall>f p. nodeType (nodes canvas ! i) = ''file'' \<and> nodeFile (nodes canvas ! i) = Some f
                    \<and> mapGet (renameMap s) f = Some p
                 \<longrightarrow> nodeFile (nodes (rewriteCanvas (renameMap s) canvas) ! i) = Some p)
          \<and> (nodeType (nodes canvas ! i) \<noteq> ''file'' \<or> nodeFile (nodes canvas ! i) = None
               \<or> (\<exists>f. nodeFile (nodes canvas ! i) = Some f \<and> mapGet (renameMap s) f = None)
                 \<longrightarrow> nodes (rewriteCanvas (renameMap s) canvas) ! i = nodes canvas ! i))"
proof (intro conjI allI impI)
  define s1 where "s1 = updateBacklinks h file (map fst (getBacklinksForFile h (vaultOf s) file)) s"
  define written where "written = toJson h (rewriteCanvas (renameMap s) canvas)"
  define s2 where "s2 = patchFile s1 file (\<lambda>_. written)"
  have rd: "readFile (vaultOf s2) file = Some written"
    using content by (simp add: s2_def s1_def readFile_patchFile)
  assume free: "oldP \<notin> fst ` set (files (vaultOf s)) \<or> \<not> pathExists (vaultOf s) newP"
  have res: "fst (processRename h s oldP newP) = None
          \<and> readFile (vaultOf (snd (processRename h s oldP newP))) newP = Some written"
  proof (cases "oldP \<in> fst ` set (files (vaultOf s))")
    case False
    then have f: "file = newP" using found(2) by simp
    have "processRename h s oldP newP = (None, s2)"
      unfolding s2_def s1_def written_def f
      using False found(1) canvas content parsed
      by (intro processRename_canvas_at_new_path) (simp_all add: f getFileByPath_def)
    then show ?thesis using rd f by simp
  next
    case True
    then have f: "file = oldP" using found(2) by simp
    from True free have vacant: "\<not> pathExists (vaultOf s) newP" by simp
    with True have ne: "oldP \<noteq> newP" by (auto simp: pathExists_def)
    have "pathExists (vaultOf s2) newP = pathExists (vaultOf s) newP"
      by (intro pathExists_keys) (simp_all add: s2_def s1_def folders_patchFile folders_updateBacklinks)
    with vacant have vacant2: "\<not> pathExists (vaultOf s2) newP" by blast
    have "processRename h s oldP newP = moveOldFile s2 oldP newP"
      unfolding s2_def s1_def written_def f
      using True canvas content parsed
      by (intro processRename_canvas_at_old_path) (simp_all add: f getFileByPath_def)
    then show ?thesis using readFile_moveOldFile[OF vacant2 ne] rd f by simp
  qed
  from res show "fst (processRename h s oldP newP) = None" by simp
  from res show "readFile (vaultOf (snd (processRename h s oldP newP))) newP
              = Some (toJson h (rewriteCanvas (renameMap s) canvas))"
    by (simp add: written_def)
next
  show "canvasRest (rewriteCanvas (renameMap s) canvas) = canvasRest canvas"
    by (simp add: rewriteCanvas_def)
  show "length (nodes (rewriteCanvas (renameMap s) canvas)) = length (nodes canvas)"
    by (simp add: rewriteCanvas_def)
next
  fix i assume "i < length (nodes canvas)"
  then have nth: "nodes (rewriteCanvas (renameMap s) canvas) ! i = rewriteNode (renameMap s) (nodes canvas ! i)"
    by (simp add: rewriteCanvas_def)
  show "nodeType (nodes (rewriteCanvas (renameMap s) canvas) ! i) = nodeType (nodes canvas ! i)"
    by (simp add: nth rewriteNode_frame)
  show "nodeRest (nodes (rewriteCanvas (renameMap s) canvas) ! i) = nodeRest (nodes canvas ! i)"
    by (simp add: nth rewriteNode_frame)
  show "nodes (rewriteCanvas (renameMap s) canvas) ! i = nodes canvas ! i"
    if "nodeType (nodes canvas ! i) \<noteq> ''file'' \<or> nodeFile (nodes canvas ! i) = None
               \<or> (\<exists>f. nodeFile (nodes canvas ! i) = Some f \<and> mapGet (renameMap s) f = None)"
    using that by (simp only: nth rewriteNode_miss)
  fix f p
  assume hit: "nodeType (nodes canvas ! i) = ''file'' \<and> nodeFile (nodes canvas ! i) = Some f
                    \<and> mapGet (renameMap s) f = Some p"
  then have "(f, p) \<in> set (renameMap s)" by (auto simp: mapGet_def dest: map_of_SomeD)
  with vals have "p \<noteq> []" by auto
  with hit show "nodeFile (nodes (rewriteCanvas (renameMap s) canvas) ! i) = Some p"
    by (simp add: nth rewriteNode_hit)
qed


theorem processRename_rewrites_canvas_witness:
  "readFile (vaultOf (snd (processRename canvasHost canvasState ''drafts/plan.canvas''
       ''boards/plan.canvas''))) ''boards/plan.canvas''
     = Some ''file:B/note/img.png;text:-;file:B/other.md;edges:[]''
   \<and> readFile (vaultOf (snd (processRename canvasHost canvasState ''A/note/plan.canvas''
       ''B/note/plan.canvas''))) ''B/note/plan.canvas''
     = Some ''file:B/note/img.png;text:-;file:B/other.md;edges:[]''
   \<and> nodes (rewriteCanvas (renameMap canvasState) exampleCanvas) ! 0
       = \<lparr>nodeType = ''file'', nodeFile = Some ''B/note/img.png'', nodeRest = ''x:0,y:0''\<rparr>
   \<and> nodes (rewriteCanvas (renameMap canvasState) exampleCanvas) ! 1 = nodes exampleCanvas ! 1
   \<and> nodes (rewriteCanvas (renameMap canvasState) exampleCanvas) ! 2 = nodes exampleCanvas ! 2"
proof -
  have m: "\<forall>(k, p) \<in> set (renameMap canvasState). p \<noteq> []"
    by (simp add: canvasState_def)
  have printed: "toJson canvasHost (rewriteCanvas (renameMap canvasState) exampleCanvas)
                   = ''file:B/note/img.png;text:-;file:B/other.md;edges:[]''"
    by code_simp
  have parsed: "parseCanvas canvasHost ''canvas json'' = Some exampleCanvas" by code_simp
  have ext1: "toLowerCase (extension ''boards/plan.canvas'') = ''canvas''" by code_simp
  have ext2: "toLowerCase (extension ''A/note/plan.canvas'') = ''canvas''" by code_simp
  have here1: "''boards/plan.canvas'' \<in> fst ` set (files (vaultOf canvasState))" by code_simp
  have file1: "''boards/plan.canvas''
                 = (if ''drafts/plan.canvas'' \<in> fst ` set (files (vaultOf canvasState))
                    then ''drafts/plan.canvas'' else ''boards/plan.canvas'')"
    by code_simp
  have read1: "readFile (vaultOf (updateBacklinks canvasHost ''boards/plan.canvas''
                 (map fst (getBacklinksForFile canvasHost (vaultOf canvasState) ''boards/plan.canvas''))
                 canvasState)) ''boards/plan.canvas'' = Some ''canvas json''"
    by code_simp
  have free1: "''drafts/plan.canvas'' \<notin> fst ` set (files (vaultOf canvasState))
                 \<or> \<not> pathExists (vaultOf canvasState) ''boards/plan.canvas''"
    by code_simp
  note renamed = processRename_rewrites_canvas[OF m here1 file1 ext1 read1 parsed]
  have at_new: "readFile (vaultOf (snd (processRename canvasHost canvasState ''drafts/plan.canvas''
       ''boards/plan.canvas''))) ''boards/plan.canvas''
     = Some ''file:B/note/img.png;text:-;file:B/other.md;edges:[]''"
    using renamed[THEN conjunct1, THEN mp, OF free1, THEN conjunct2] by (simp only: printed)
  have here2: "''A/note/plan.canvas'' \<in> fst ` set (files (vaultOf canvasState))" by code_simp
  have file2: "''A/note/plan.canvas''
                 = (if ''A/note/plan.canvas'' \<in> fst ` set (files (vaultOf canvasState))
                    then ''A/note/plan.canvas'' else ''B/note/plan.canvas'')"
    by code_simp
  have read2: "readFile (vaultOf (updateBacklinks canvasHost ''A/note/plan.canvas''
                 (map fst (getBacklinksForFile canvasHost (vaultOf canvasState) ''A/note/plan.canvas''))
                 canvasState)) ''A/note/plan.canvas'' = Some ''canvas json''"
    by code_simp
  have free2: "''A/note/plan.canvas'' \<notin> fst ` set (files (vaultOf canvasState))
                 \<or> \<not> pathExists (vaultOf canvasState) ''B/note/plan.canvas''"
    by code_simp
  note moved = processRename_rewrites_canvas[OF m here2 file2 ext2 read2 parsed]
  have at_old: "readFile (vaultOf (snd (processRename canvasHost canvasState ''A/note/plan.canvas''
       ''B/note/plan.canvas''))) ''B/note/plan.canvas''
     = Some ''file:B/note/img.png;text:-;file:B/other.md;edges:[]''"
    using moved[THEN conjunct1, THEN mp, OF free2, THEN conjunct2] by (simp only: printed)
  note per_node = renamed[THEN conjunct2, THEN conjunct2, THEN conjunct2]
  have n0: "(0::nat) < length (nodes exampleCanvas)" by (simp add: exampleCanvas_def)
  have n1: "(1::nat) < length (nodes exampleCanvas)" by (simp add: exampleCanvas_def)
  have n2: "(2::nat) < length (nodes exampleCanvas)" by (simp add: exampleCanvas_def)
  have hit: "nodeType (nodes exampleCanvas ! 0) = ''file''
             \<and> nodeFile (nodes exampleCanvas ! 0) = Some ''A/note/img.png''
             \<and> mapGet (renameMap canvasState) ''A/note/img.png'' = Some ''B/note/img.png''"
    by (simp add: exampleCanvas_def canvasState_def mapGet_def)
  have f0: "nodeFile (nodes (rewriteCanvas (renameMap canvasState) exampleCanvas) ! 0)
              = Some ''B/note/img.png''"
    using per_node[rule_format, OF n0, THEN conjunct2, THEN conjunct2, THEN conjunct1,
        rule_format, OF hit] .
  have t0: "nodeType (nodes (rewriteCanvas (renameMap canvasState) exampleCanvas) ! 0) = ''file''"
    using per_node[rule_format, OF n0, THEN conjunct1] by (simp add: exampleCanvas_def)
  have r0: "nodeRest (nodes (rewriteCanvas (renameMap canvasState) exampleCanvas) ! 0) = ''x:0,y:0''"
    using per_node[rule_format, OF n0, THEN conjunct2, THEN conjunct1]
    by (simp add: exampleCanvas_def)
  have node0: "nodes (rewriteCanvas (renameMap canvasState) exampleCanvas) ! 0
       = \<lparr>nodeType = ''file'', nodeFile = Some ''B/note/img.png'', nodeRest = ''x:0,y:0''\<rparr>"
    using f0 t0 r0 by (cases "nodes (rewriteCanvas (renameMap canvasState) exampleCanvas) ! 0") simp
  have miss1: "nodeType (nodes exampleCanvas ! 1) \<noteq> ''file'' \<or> nodeFile (nodes exampleCanvas ! 1) = None
               \<or> (\<exists>f. nodeFile (nodes exampleCanvas ! 1) = Some f \<and> mapGet (renameMap canvasState) f = None)"
    by (simp add: exampleCanvas_def)
  have node1: "nodes (rewriteCanvas (renameMap canvasState) exampleCanvas) ! 1 = nodes exampleCanvas ! 1"
    using per_node[rule_format, OF n1, THEN conjunct2, THEN conjunct2, THEN conjunct2,
        rule_format, OF miss1] .
  have miss2: "nodeType (nodes exampleCanvas ! 2) \<noteq> ''file'' \<or> nodeFile (nodes exampleCanvas ! 2) = None
               \<or> (\<exists>f. nodeFile (nodes exampleCanvas ! 2) = Some f \<and> mapGet (renameMap canvasState) f = None)"
    by (simp add: exampleCanvas_def canvasState_def mapGet_def)
  have node2: "nodes (rewriteCanvas (renameMap canvasState) exampleCanvas) ! 2 = nodes exampleCanvas ! 2"
    using per_node[rule_format, OF n2, THEN conjunct2, THEN conjunct2, THEN conjunct2,
        rule_format, OF miss2] .
  from at_new at_old node0 node1 node2 show ?thesis by (intro conjI)
qed

text \<open>
  The keys of the rename map and the files of the vault, through the move of
  the old file and through \<open>processRename\<close>.
\<close>

lemma renameMap_moveOldFile:
  "fst ` set (renameMap (snd (moveOldFile s k n))) \<subseteq> fst ` set (renameMap s)
   \<and> (fst (moveOldFile s k n) = None \<longrightarrow> k \<notin> fst ` set (renameMap (snd (moveOldFile s k n))))"
proof (cases "renameFile (createFolderSafe (vaultOf s) (dirname n)) k n")
  case (Inl e)
  then show ?thesis by (simp add: moveOldFile_def Let_def)
next
  case (Inr w)
  then show ?thesis by (simp add: moveOldFile_def Let_def keys_mapDelete)
qed

lemma keys_vaultRename:
  "k' \<in> fst ` set (files v) \<Longrightarrow> k' \<noteq> k \<Longrightarrow> k' \<in> fst ` set (files (vaultRename v k n))"
  by (force simp: vaultRename_def)

lemma files_moveOldFile:
  assumes "k' \<in> fst ` set (files (vaultOf s))" "k' \<noteq> k"
  shows "k' \<in> fst ` set (files (vaultOf (snd (moveOldFile s k n))))"
proof (cases "renameFile (createFolderSafe (vaultOf s) (dirname n)) k n")
  case (Inl e)
  then show ?thesis using assms by (simp add: moveOldFile_def Let_def)
next
  case (Inr w)
  then have w: "w = vaultRename (createFolderSafe (vaultOf s) (dirname n)) k n"
    by (simp add: renameFile_def split: if_splits)
  have "k' \<in> fst ` set (files (vaultRename (createFolderSafe (vaultOf s) (dirname n)) k n))"
    using assms by (intro keys_vaultRename) simp_all
  then show ?thesis using Inr w by (simp add: moveOldFile_def Let_def)
qed


lemma processRename_shape:
  "(processRename h s k n = (None, s) \<and> k \<notin> fst ` set (files (vaultOf s)))
   \<or> (\<exists>s2. renameMap s2 = renameMap s
            \<and> map fst (files (vaultOf s2)) = map fst (files (vaultOf s))
            \<and> ((\<exists>r. processRename h s k n = (r, s2)
                     \<and> (r = None \<longrightarrow> k \<notin> fst ` set (files (vaultOf s))))
                \<or> processRename h s k n = moveOldFile s2 k n))"
proof (cases "getFileByPath (vaultOf s) k")
  case None
  note old = this
  then have gone: "k \<notin> fst ` set (files (vaultOf s))"
    by (simp add: getFileByPath_def split: if_splits)
  show ?thesis
  proof (cases "getFileByPath (vaultOf s) n")
    case None
    with old gone show ?thesis by (simp add: processRename_def)
  next
    case (Some f)
    define s1 where "s1 = updateBacklinks h f (map fst (getBacklinksForFile h (vaultOf s) f)) s"
    define s2 where "s2 = snd (rewriteOwnContent h s1 f k)"
    have m: "renameMap s2 = renameMap s" by (simp add: s2_def s1_def)
    have f: "map fst (files (vaultOf s2)) = map fst (files (vaultOf s))"
      by (simp add: s2_def s1_def keys_rewriteOwnContent)
    have "\<exists>r. processRename h s k n = (r, s2) \<and> (r = None \<longrightarrow> k \<notin> fst ` set (files (vaultOf s)))"
      using old Some gone
      by (cases "rewriteOwnContent h s1 f k")
         (auto simp: processRename_def Let_def s1_def s2_def split: option.splits)
    with m f show ?thesis by blast
  qed
next
  case (Some f)
  then have fk: "f = k" by (simp add: getFileByPath_def split: if_splits)
  define s1 where "s1 = updateBacklinks h k (map fst (getBacklinksForFile h (vaultOf s) k)) s"
  define s2 where "s2 = snd (rewriteOwnContent h s1 k k)"
  have m: "renameMap s2 = renameMap s" by (simp add: s2_def s1_def)
  have f: "map fst (files (vaultOf s2)) = map fst (files (vaultOf s))"
    by (simp add: s2_def s1_def keys_rewriteOwnContent)
  have "(\<exists>r. processRename h s k n = (r, s2) \<and> r \<noteq> None)
        \<or> processRename h s k n = moveOldFile s2 k n"
    using Some fk
    by (cases "rewriteOwnContent h s1 k k")
       (auto simp: processRename_def Let_def s1_def s2_def split: option.splits)
  with m f show ?thesis by blast
qed

lemma processRename_map:
  "fst ` set (renameMap (snd (processRename h s k n))) \<subseteq> fst ` set (renameMap s)"
  using processRename_shape[of h s k n] renameMap_moveOldFile[of _ k n]
  by (elim disjE exE conjE) (simp, simp, metis)


lemma processRename_removes:
  assumes "k \<in> fst ` set (files (vaultOf s))" and "fst (processRename h s k n) = None"
  shows "k \<notin> fst ` set (renameMap (snd (processRename h s k n)))"
proof -
  from processRename_shape[of h s k n] assms(1)
  obtain s2 where s2: "renameMap s2 = renameMap s"
    "(\<exists>r. processRename h s k n = (r, s2) \<and> (r = None \<longrightarrow> k \<notin> fst ` set (files (vaultOf s))))
     \<or> processRename h s k n = moveOldFile s2 k n"
    by blast
  from s2(2) assms have "processRename h s k n = moveOldFile s2 k n" by auto
  then show ?thesis using renameMap_moveOldFile[of s2 k n] assms(2) by simp
qed

lemma processRename_keeps_files:
  assumes "k' \<in> fst ` set (files (vaultOf s))" and "k' \<noteq> k"
  shows "k' \<in> fst ` set (files (vaultOf (snd (processRename h s k n))))"
proof -
  from processRename_shape[of h s k n]
  consider "processRename h s k n = (None, s)"
    | s2 r where "map fst (files (vaultOf s2)) = map fst (files (vaultOf s))"
        "processRename h s k n = (r, s2)"
    | s2 where "map fst (files (vaultOf s2)) = map fst (files (vaultOf s))"
        "processRename h s k n = moveOldFile s2 k n"
    by blast
  then show ?thesis
  proof cases
    case 1
    then show ?thesis using assms(1) by simp
  next
    case 2
    from 2(1) have "set (map fst (files (vaultOf s2))) = set (map fst (files (vaultOf s)))"
      by (rule arg_cong)
    then show ?thesis using 2(2) assms(1) by simp
  next
    case 3
    from 3(1) have "set (map fst (files (vaultOf s2))) = set (map fst (files (vaultOf s)))"
      by (rule arg_cong)
    then have "k' \<in> fst ` set (files (vaultOf s2))" using assms(1) by simp
    from files_moveOldFile[OF this assms(2), of n] show ?thesis using 3(2) by simp
  qed
qed

lemma processEntries_drains:
  assumes "\<forall>k \<in> fst ` set (renameMap s). k = oldP \<or> (k \<in> set ks \<and> k \<in> fst ` set (files (vaultOf s)))"
    and "fst (processEntries h ks s) = None"
  shows "fst ` set (renameMap (snd (processEntries h ks s))) \<subseteq> {oldP}"
  using assms
proof (induction ks arbitrary: s)
  case Nil
  then show ?case by auto
next
  case (Cons k ks)
  show ?case
  proof (cases "mapGet (renameMap s) k")
    case None
    then have "k \<notin> fst ` set (renameMap s)"
      by (simp add: mapGet_def map_of_eq_None_iff)
    with Cons.prems(1)
    have inv: "\<forall>k' \<in> fst ` set (renameMap s).
                 k' = oldP \<or> (k' \<in> set ks \<and> k' \<in> fst ` set (files (vaultOf s)))"
      by auto
    from Cons.prems(2) None have "fst (processEntries h ks s) = None" by simp
    from Cons.IH[OF inv this] None show ?thesis by simp
  next
    case (Some n)
    define s' where "s' = snd (processRename h s k n)"
    have run: "fst (processRename h s k n) = None \<and> fst (processEntries h ks s') = None
               \<and> processEntries h (k # ks) s = processEntries h ks s'"
      using Cons.prems(2) Some
      by (cases "processRename h s k n"; cases "fst (processRename h s k n)")
         (auto simp: s'_def)
    have inv: "\<forall>k' \<in> fst ` set (renameMap s').
                 k' = oldP \<or> (k' \<in> set ks \<and> k' \<in> fst ` set (files (vaultOf s')))"
    proof
      fix k' assume in': "k' \<in> fst ` set (renameMap s')"
      then have in0: "k' \<in> fst ` set (renameMap s)"
        using processRename_map[of h s k n] by (auto simp: s'_def)
      show "k' = oldP \<or> (k' \<in> set ks \<and> k' \<in> fst ` set (files (vaultOf s')))"
      proof (cases "k' = oldP")
        case True
        then show ?thesis by simp
      next
        case False
        with Cons.prems(1) in0
        have pend: "k' \<in> set (k # ks)" and live: "k' \<in> fst ` set (files (vaultOf s))"
          by auto
        have "k' \<noteq> k"
        proof
          assume "k' = k"
          with live run processRename_removes[of k s h n] in' show False
            by (simp add: s'_def)
        qed
        with pend live processRename_keeps_files[of k' s k h n] show ?thesis
          by (simp add: s'_def)
      qed
    qed
    from Cons.IH[OF inv] run show ?thesis by simp
  qed
qed

text \<open>
  The rename map over a whole cascade. A cascade starts only when the map is
  empty (the guard of \<open>handleRename\<close>). If \<open>handleRename\<close> then returns
  without an exception, the map is empty again: the entry of every attachment
  is removed when the attachment is moved, an entry whose file is missing is
  skipped, and the \<open>finally\<close> block removes the entry of the renamed file
  itself.
\<close>

lemma cascade_without_exception_empties_map:
  assumes "renameMap s = []" and "fst (handleRename h s file oldP) = None"
  shows "renameMap (snd (handleRename h s file oldP)) = []"
proof (cases "file")
  case (TFolder d)
  then show ?thesis using assms(1) by (simp add: handleRename_def)
next
  case (TFile p)
  define s0 where "s0 = s\<lparr>console := console s @ [''Handle Rename'']\<rparr>"
  define s1 where "s1 = fillRenameMap h s0 p oldP"
  define s2 where "s2 = snd (processEntries h (map fst (renameMap s1)) s1)"
  have res: "handleRename h s file oldP
               = (fst (processEntries h (map fst (renameMap s1)) s1),
                  s2\<lparr>renameMap := mapDelete (renameMap s2) oldP\<rparr>)"
    using assms(1) TFile
    by (simp add: handleRename_def Let_def s0_def s1_def s2_def split: prod.splits)
  with assms(2) have ok: "fst (processEntries h (map fst (renameMap s1)) s1) = None" by simp
  have "fst ` set (renameMap s1) \<subseteq> insert oldP (fst ` set (files (vaultOf s1)))"
    using keys_fillRenameMap[of h s0 p oldP] assms(1) by (simp add: s1_def s0_def)
  then have inv: "\<forall>k \<in> fst ` set (renameMap s1).
      k = oldP \<or> (k \<in> set (map fst (renameMap s1)) \<and> k \<in> fst ` set (files (vaultOf s1)))"
    by auto
  from processEntries_drains[OF inv ok] have "fst ` set (renameMap s2) \<subseteq> {oldP}"
    by (simp add: s2_def)
  then have "fst ` set (mapDelete (renameMap s2) oldP) = {}"
    by (auto simp: keys_mapDelete)
  then show ?thesis unfolding res by simp
qed

lemma cascade_without_exception_empties_map_example:
  "renameMap (snd (handleRename exampleRenameHost idleState (TFile ''B/note.md'') ''A/note.md'')) = []"
proof -
  have fresh: "renameMap idleState = []" by (simp add: idleState_def)
  have returned: "fst (handleRename exampleRenameHost idleState (TFile ''B/note.md'') ''A/note.md'')
                    = None"
    by code_simp
  show ?thesis by (rule cascade_without_exception_empties_map[OF fresh returned])
qed

text \<open>
  C4 fails when a host operation throws in the middle of a cascade: the map is
  empty when \<open>handleRename\<close> is called and is not empty when it is left.
  The note \<open>A/note.md\<close> was renamed to \<open>B/note.md\<close>; its attachment
  folder holds \<open>img.png\<close> and \<open>img 1.png\<close>, and \<open>B/note/img.png\<close>
  exists already. \<open>fillRenameMap\<close> gives \<open>A/note/img.png\<close> the free
  sibling name \<open>B/note/img 1.png\<close>, which is also the place of
  \<open>A/note/img 1.png\<close> under the new folder. The first move succeeds, the
  second throws \<open>Destination file already exists!\<close>, the \<open>finally\<close> block
  deletes the entry of the note only, and the entry of \<open>A/note/img 1.png\<close>
  is left in the map. The next rename notification finds the map non-empty and
  is dropped, with the state as it was.
\<close>

theorem failed_cascade_leaves_rename_map_filled:
  "renameMap \<lparr>renameMap = [], vaultOf = crowdedVault, console = []\<rparr> = []
   \<and> fst (handleRename exampleRenameHost \<lparr>renameMap = [], vaultOf = crowdedVault, console = []\<rparr>
            (TFile ''B/note.md'') ''A/note.md'')
       = Some (HostError ''Destination file already exists!'')
   \<and> renameMap (snd (handleRename exampleRenameHost
            \<lparr>renameMap = [], vaultOf = crowdedVault, console = []\<rparr> (TFile ''B/note.md'') ''A/note.md''))
       = [(''A/note/img 1.png'', ''B/note/img 1.png'')]
   \<and> handleRename exampleRenameHost
         (snd (handleRename exampleRenameHost
            \<lparr>renameMap = [], vaultOf = crowdedVault, console = []\<rparr> (TFile ''B/note.md'') ''A/note.md''))
         (TFile ''C/other.md'') ''B/other.md''
       = (None, snd (handleRename exampleRenameHost
            \<lparr>renameMap = [], vaultOf = crowdedVault, console = []\<rparr> (TFile ''B/note.md'') ''A/note.md''))"
  by code_simp

end
